theory Spec2Isabelle
  imports Complex_Main "HOL-Library.AList"
begin

section \<open>Conventions of the embedding\<close>

text \<open>
  The development embeds the mosaic stitching engine of \<^verbatim>\<open>segflow/core.py\<close> (class
  \<^verbatim>\<open>SegFlow\<close> and the helper \<^verbatim>\<open>_extract_tiles\<close>) and the \<^verbatim>\<open>area\<close> property of
  \<^verbatim>\<open>segflow/full_image/segmentation_image.py\<close>.

  \<^item> A two-dimensional numpy array is a list of rows (\<open>'a raster\<close>). Label tiles are
    two-dimensional: the branches that squeeze a trailing channel axis of length one are
    not modelled.
  \<^item> Python integers (pad amounts, labels, overlap counts, the pixel threshold) are
    \<open>int\<close>; tile size, stride and tile positions are \<open>nat\<close>, since they index rows and
    columns. The integer dtype of the label tiles is chosen by the external predictor;
    it is a parameter (\<open>dtype\<close>) of the Confidence Reduction, whose addition
    \<^verbatim>\<open>label + max_label\<close> is computed in that dtype and wraps around. The overlap mask and
    the mosaic are \<^verbatim>\<open>int32\<close> arrays in the source; their values are taken as mathematical
    integers.
  \<^item> Floating point numbers (weights, coverage scores, window weights) are idealised
    as \<open>real\<close>: rounding is not modelled.
  \<^item> Every \<^verbatim>\<open>raise\<close> of the source, and every exception of a Python or numpy primitive
    that the modelled code can trigger through a missing field, an empty list or a zero
    stride, is a branch of the model returning \<open>Inl\<close> of a \<open>py_error\<close>. \<open>NotANumber\<close>
    stands for a result that numpy fills with NaN.
  \<^item> Elementwise numpy operations are modelled on arrays of one shape. On arrays of
    different shapes numpy raises or broadcasts; the theorems below carry the shape
    conditions (\<open>rect\<close>, \<open>tiles_fit\<close>) under which the model is the code.
\<close>

datatype py_error = ValueError | ZeroDivisionError | NameError | AttributeError
  | TypeError | IndexError | NotANumber

type_synonym 'a raster = "'a list list"

text \<open>\<open>rect h w a\<close>: the array has shape \<open>(h, w)\<close>.\<close>

definition rect :: "nat \<Rightarrow> nat \<Rightarrow> 'a raster \<Rightarrow> bool" where
  "rect h w a \<longleftrightarrow> length a = h \<and> (\<forall>row \<in> set a. length row = w)"

text \<open>\<^verbatim>\<open>a.shape[:2]\<close> of a two-dimensional array with at least one row.\<close>

definition shape :: "'a raster \<Rightarrow> nat \<times> nat" where
  "shape a = (length a, (case a of [] \<Rightarrow> 0 | row # _ \<Rightarrow> length row))"

text \<open>\<^verbatim>\<open>np.zeros((h, w))\<close> and any other constant array.\<close>

definition full :: "nat \<Rightarrow> nat \<Rightarrow> 'a \<Rightarrow> 'a raster" where
  "full h w v = replicate h (replicate w v)"

text \<open>\<^verbatim>\<open>a[y:y_end, x:x_end]\<close> for non-negative bounds: Python clips a slice at the
  end of the array and returns nothing when the stop is not after the start.\<close>

definition slice2 :: "nat \<Rightarrow> nat \<Rightarrow> nat \<Rightarrow> nat \<Rightarrow> 'a raster \<Rightarrow> 'a raster" where
  "slice2 y y_end x x_end a =
     map (\<lambda>row. take (x_end - x) (drop x row)) (take (y_end - y) (drop y a))"

text \<open>Elementwise operations on arrays of one shape.\<close>

definition map2d :: "('a \<Rightarrow> 'b) \<Rightarrow> 'a raster \<Rightarrow> 'b raster" where
  "map2d f a = map (map f) a"

definition zip_with2 :: "('a \<Rightarrow> 'b \<Rightarrow> 'c) \<Rightarrow> 'a raster \<Rightarrow> 'b raster \<Rightarrow> 'c raster" where
  "zip_with2 f a b = map2 (\<lambda>ra rb. map2 f ra rb) a b"

text \<open>\<^verbatim>\<open>dst[mask] = src[mask]\<close> and \<^verbatim>\<open>dst[mask] = v\<close> for arrays of one shape, returning
  the new contents of \<^verbatim>\<open>dst\<close>.\<close>

definition assign_masked :: "bool raster \<Rightarrow> 'a raster \<Rightarrow> 'a raster \<Rightarrow> 'a raster" where
  "assign_masked msk src dst =
     zip_with2 (\<lambda>m (s, d). if m then s else d) msk (zip_with2 Pair src dst)"

definition fill_masked :: "bool raster \<Rightarrow> 'a \<Rightarrow> 'a raster \<Rightarrow> 'a raster" where
  "fill_masked msk v dst = zip_with2 (\<lambda>m d. if m then v else d) msk dst"

text \<open>\<^verbatim>\<open>a[y:y+h, x:x+w] = region\<close> where \<open>region\<close> has shape \<open>(h, w)\<close>: the cells of the
  window take the region's values, every other cell keeps its own. A region obtained as
  a view \<^verbatim>\<open>a[y:y_end, x:x_end]\<close> and updated in place is written back the same way.\<close>

definition store_region :: "nat \<Rightarrow> nat \<Rightarrow> 'a raster \<Rightarrow> 'a raster \<Rightarrow> 'a raster" where
  "store_region y x region a =
     map (\<lambda>i. map (\<lambda>j.
            if y \<le> i \<and> i < y + length region \<and> x \<le> j \<and> j < x + length (region ! (i - y))
            then region ! (i - y) ! (j - x) else a ! i ! j)
          [0..<length (a ! i)])
       [0..<length a]"

text \<open>\<^verbatim>\<open>a[mask]\<close>: the selected cells in row-major order.\<close>

definition select_masked :: "bool raster \<Rightarrow> 'a raster \<Rightarrow> 'a list" where
  "select_masked msk a =
     concat (map2 (\<lambda>mrow arow. map snd (filter fst (zip mrow arow))) msk a)"

text \<open>\<^verbatim>\<open>np.unique\<close>: the distinct values, ascending.\<close>

definition unique :: "int list \<Rightarrow> int list" where
  "unique xs = sort (remdups xs)"

text \<open>\<^verbatim>\<open>range(0, stop, step)\<close> for a non-negative stop; a zero step raises.\<close>

definition range0 :: "nat \<Rightarrow> nat \<Rightarrow> py_error + nat list" where
  "range0 stop step =
     (if step = 0 then Inl ValueError
      else Inr (map (\<lambda>k. k * step) [0..<(stop + step - 1) div step]))"


section \<open>The coordinator and its configuration\<close>

text \<open>The fields of a \<^verbatim>\<open>SegFlow\<close> object. Of the source image and the padded image only the
  shapes are kept: the stitching code reads nothing else of them. A field that is
  \<^verbatim>\<open>None\<close> in Python is \<open>None\<close> here.\<close>

record segflow =
  tile_size :: nat
  stride :: nat
  average_weight :: real
  sum_weight :: real
  min_pixels :: int
  image :: "(nat \<times> nat) option"
  image_padded :: "(nat \<times> nat) option"
  pad_top :: "int option"
  pad_bottom :: "int option"
  pad_left :: "int option"
  pad_right :: "int option"
  positions :: "(nat \<times> nat) list option"

text \<open>\<^verbatim>\<open>SegFlow.__init__(tile_size, stride, average_weight, sum_weight, min_pixels)\<close>: the
  body stores \<^verbatim>\<open>tile_size\<close> and \<^verbatim>\<open>stride\<close> and assigns the literals \<^verbatim>\<open>0.7\<close>, \<^verbatim>\<open>0.3\<close> and
  \<^verbatim>\<open>5\<close> to the other three fields.\<close>

definition init :: "nat \<Rightarrow> nat \<Rightarrow> real \<Rightarrow> real \<Rightarrow> int \<Rightarrow> segflow" where
  "init tile_size_arg stride_arg average_weight_arg sum_weight_arg min_pixels_arg =
     \<lparr> tile_size = tile_size_arg, stride = stride_arg,
       average_weight = 7 / 10, sum_weight = 3 / 10, min_pixels = 5,
       image = None, image_padded = None,
       pad_top = None, pad_bottom = None, pad_left = None, pad_right = None,
       positions = None \<rparr>"

text \<open>\<^verbatim>\<open>load_numpy_arrays\<close> stores the stacked channels; the model records their shape.\<close>

definition load_numpy_arrays :: "nat \<Rightarrow> nat \<Rightarrow> segflow \<Rightarrow> segflow" where
  "load_numpy_arrays height width self = self\<lparr>image := Some (height, width)\<rparr>"


section \<open>Tiling\<close>

text \<open>The total padding of one dimension of size \<open>S\<close>, as \<^verbatim>\<open>pad_image\<close> computes it:
  \<^verbatim>\<open>tile_size + ((tile_size - (S - tile_size) % stride) % stride)\<close>. Python's \<^verbatim>\<open>%\<close> with a
  positive modulus is \<open>mod\<close> on \<open>int\<close>; a zero modulus raises.\<close>

definition pad_total :: "nat \<Rightarrow> nat \<Rightarrow> nat \<Rightarrow> py_error + int" where
  "pad_total tile_size_v stride_v S =
     (if stride_v = 0 then Inl ZeroDivisionError
      else Inr (int tile_size_v
                + ((int tile_size_v - (int S - int tile_size_v) mod int stride_v)
                   mod int stride_v)))"

text \<open>\<^verbatim>\<open>pad_image\<close>: nothing happens without an image; otherwise the four pad amounts
  and the padded image (here: its shape) are stored.\<close>

definition pad_image :: "segflow \<Rightarrow> py_error + segflow" where
  "pad_image self =
     (case image self of
        None \<Rightarrow> Inr self
      | Some (height, width) \<Rightarrow>
          (case pad_total (tile_size self) (stride self) height of
             Inl e \<Rightarrow> Inl e
           | Inr pad_height_total \<Rightarrow>
               (case pad_total (tile_size self) (stride self) width of
                  Inl e \<Rightarrow> Inl e
                | Inr pad_width_total \<Rightarrow>
                    (let top_v = pad_height_total div 2;
                         bottom_v = pad_height_total - top_v;
                         left_v = pad_width_total div 2;
                         right_v = pad_width_total - left_v
                     in Inr (self\<lparr> pad_top := Some top_v, pad_bottom := Some bottom_v,
                                   pad_left := Some left_v, pad_right := Some right_v,
                                   image_padded :=
                                     Some (nat (int height + top_v + bottom_v),
                                           nat (int width + left_v + right_v)) \<rparr>)))))"

text \<open>The start offsets \<^verbatim>\<open>_extract_tiles\<close> visits: a row-major double loop over
  \<^verbatim>\<open>range(0, height - tile_size + 1, stride)\<close> and the same for the width.\<close>

definition tile_positions :: "nat \<times> nat \<Rightarrow> nat \<Rightarrow> nat \<Rightarrow> py_error + (nat \<times> nat) list" where
  "tile_positions shp tile_size_v stride_v =
     (case range0 (fst shp + 1 - tile_size_v) stride_v of
        Inl e \<Rightarrow> Inl e
      | Inr ys \<Rightarrow>
          (if ys = [] then Inr []
           else (case range0 (snd shp + 1 - tile_size_v) stride_v of
                   Inl e \<Rightarrow> Inl e
                 | Inr xs \<Rightarrow> Inr (concat (map (\<lambda>y. map (\<lambda>x. (y, x)) xs) ys)))))"

text \<open>\<^verbatim>\<open>_extract_tiles(image, tile_size, stride)\<close> on a two-dimensional array.\<close>

definition extract_tiles_of ::
  "'a raster \<Rightarrow> nat \<Rightarrow> nat \<Rightarrow> py_error + ('a raster list \<times> (nat \<times> nat) list)" where
  "extract_tiles_of a tile_size_v stride_v =
     (case tile_positions (shape a) tile_size_v stride_v of
        Inl e \<Rightarrow> Inl e
      | Inr ps \<Rightarrow>
          Inr (map (\<lambda>(y, x). slice2 y (y + tile_size_v) x (x + tile_size_v) a) ps, ps))"

text \<open>\<^verbatim>\<open>extract_tiles\<close> of the coordinator: the positions are computed once and kept
  (the tile arrays stored beside them are not modelled).\<close>

definition extract_tiles :: "segflow \<Rightarrow> py_error + segflow" where
  "extract_tiles self =
     (case positions self of
        Some _ \<Rightarrow> Inr self
      | None \<Rightarrow>
          (case image_padded self of
             None \<Rightarrow> Inl AttributeError
           | Some shp \<Rightarrow>
               (case tile_positions shp (tile_size self) (stride self) of
                  Inl e \<Rightarrow> Inl e
                | Inr ps \<Rightarrow> Inr (self\<lparr>positions := Some ps\<rparr>))))"


section \<open>Cropper\<close>

text \<open>A bound of a Python slice over a sequence of length \<open>n\<close>: a negative bound counts
  from the end, and every bound is clipped to the sequence.\<close>

definition py_index :: "nat \<Rightarrow> int \<Rightarrow> nat" where
  "py_index n k = (if k < 0 then nat (max 0 (int n + k)) else min n (nat k))"

text \<open>\<^verbatim>\<open>xs[start:stop]\<close>; \<open>None\<close> is the omitted stop of \<^verbatim>\<open>xs[start:]\<close>.\<close>

definition py_slice :: "int \<Rightarrow> int option \<Rightarrow> 'a list \<Rightarrow> 'a list" where
  "py_slice start stop xs =
     (let n = length xs;
          b = py_index n start;
          e = (case stop of None \<Rightarrow> n | Some k \<Rightarrow> py_index n k)
      in take (e - b) (drop b xs))"

text \<open>\<^verbatim>\<open>_crop_padded\<close>: the slice with negated pad amounts first, then the two
  corrections for a zero \<^verbatim>\<open>pad_bottom\<close> and a zero \<^verbatim>\<open>pad_right\<close>, in the order of the
  source. Negating a pad amount that is still \<^verbatim>\<open>None\<close> is a \<^verbatim>\<open>TypeError\<close>.\<close>

definition crop_padded :: "segflow \<Rightarrow> 'a raster \<Rightarrow> py_error + 'a raster" where
  "crop_padded self padded_image_to_crop =
     (case image_padded self of
        None \<Rightarrow> Inl ValueError
      | Some _ \<Rightarrow>
          (case (pad_top self, pad_bottom self, pad_left self, pad_right self) of
             (Some top_v, Some bottom_v, Some left_v, Some right_v) \<Rightarrow>
               (let cropped0 = map (py_slice left_v (Some (- right_v)))
                                 (py_slice top_v (Some (- bottom_v)) padded_image_to_crop);
                    cropped1 = (if bottom_v = 0
                                then map (py_slice left_v (Some (- right_v)))
                                       (py_slice top_v None padded_image_to_crop)
                                else cropped0);
                    cropped2 = (if right_v = 0
                                then map (py_slice left_v None) cropped1
                                else cropped1)
                in Inr cropped2)
           | _ \<Rightarrow> Inl TypeError))"


section \<open>Confidence Reduction\<close>

text \<open>The data model of a label tile: \<open>0\<close> is background, instance ids are positive.\<close>

definition nonneg_labels :: "int raster \<Rightarrow> bool" where
  "nonneg_labels a \<longleftrightarrow> (\<forall>row \<in> set a. \<forall>v \<in> set row. 0 \<le> v)"

text \<open>The non-zero instance ids that occur in a tile.\<close>

definition instance_ids :: "int raster \<Rightarrow> int set" where
  "instance_ids a = {v \<in> set (concat a). v \<noteq> 0}"

text \<open>\<^verbatim>\<open>a.max()\<close> of a non-empty array.\<close>

definition raster_max :: "('a::linorder) raster \<Rightarrow> 'a" where
  "raster_max a = Max (set (concat a))"

text \<open>The integer dtype of a numpy array: unsigned or signed, with its width in bits
  (\<^verbatim>\<open>uint8\<close> is \<open>UInt 8\<close>, \<^verbatim>\<open>int32\<close> is \<open>SInt 32\<close>). Integer arithmetic on numpy scalars of
  one dtype keeps the dtype and wraps around: \<open>wrap dt v\<close> is the value of the dtype that
  the mathematical result \<open>v\<close> is stored as.\<close>

datatype dtype = UInt nat | SInt nat

definition wrap :: "dtype \<Rightarrow> int \<Rightarrow> int" where
  "wrap dt v =
     (case dt of
        UInt bits \<Rightarrow> v mod 2 ^ bits
      | SInt bits \<Rightarrow> (v + 2 ^ (bits - 1)) mod 2 ^ bits - 2 ^ (bits - 1))"

text \<open>The body of the loop of \<^verbatim>\<open>_calculate_high_confidence_tiles\<close> for one tile of dtype
  \<open>dt\<close>: the adjusted tile and the value of \<^verbatim>\<open>max_label\<close> after it. The labels come from
  \<^verbatim>\<open>np.unique\<close> as scalars of the tile's dtype and \<^verbatim>\<open>max_label\<close> is \<open>0\<close> or the \<^verbatim>\<open>.max()\<close> of an
  earlier adjusted tile, so \<^verbatim>\<open>label + max_label\<close> is an addition in that dtype.\<close>

definition high_confidence_tile ::
  "dtype \<Rightarrow> nat \<Rightarrow> int \<Rightarrow> int raster \<Rightarrow> int raster \<times> int" where
  "high_confidence_tile dt tile_size_v max_label tile_segmentation =
     (let margin = tile_size_v div 8;
          y_start = margin;
          y_end = tile_size_v - margin;
          x_start = margin;
          x_end = tile_size_v - margin;
          high_confidence_region = slice2 y_start y_end x_start x_end tile_segmentation;
          labels_in_high_confidence =
            filter (\<lambda>l. l \<noteq> 0) (unique (concat high_confidence_region));
          tile_segmentation_cleaned =
            map2d (\<lambda>v. if v \<in> set labels_in_high_confidence then v else 0) tile_segmentation;
          labels_to_adjust = filter (\<lambda>l. l \<noteq> 0) (unique (concat tile_segmentation_cleaned));
          label_mapping = map (\<lambda>l. (l, wrap dt (l + max_label))) labels_to_adjust;
          tile_segmentation_adjusted =
            fold (\<lambda>(old_label, new_label) adjusted.
                    fill_masked (map2d (\<lambda>v. v = old_label) tile_segmentation_cleaned)
                      new_label adjusted)
              label_mapping (map2d (\<lambda>_. 0) tile_segmentation_cleaned)
      in (tile_segmentation_adjusted,
          (if labels_to_adjust \<noteq> [] then raster_max tile_segmentation_adjusted
           else max_label)))"

text \<open>The loop over \<^verbatim>\<open>zip(segmentation_tiles, self.positions)\<close>, threading \<^verbatim>\<open>max_label\<close>.
  Each entry of the result is a confidence tile with the running offset after it.\<close>

fun high_confidence_loop ::
  "dtype \<Rightarrow> nat \<Rightarrow> int \<Rightarrow> (int raster \<times> (nat \<times> nat)) list \<Rightarrow> (int raster \<times> int) list" where
  "high_confidence_loop dt tile_size_v max_label [] = []"
| "high_confidence_loop dt tile_size_v max_label ((tile_segmentation, pos) # rest) =
     (let (adjusted, max_label') =
            high_confidence_tile dt tile_size_v max_label tile_segmentation
      in (adjusted, max_label') # high_confidence_loop dt tile_size_v max_label' rest)"

text \<open>\<^verbatim>\<open>_calculate_high_confidence_tiles\<close> on label tiles of dtype \<open>dt\<close>.\<close>

definition calculate_high_confidence_tiles ::
  "segflow \<Rightarrow> dtype \<Rightarrow> int raster list \<Rightarrow> py_error + int raster list" where
  "calculate_high_confidence_tiles self dt segmentation_tiles =
     (case positions self of
        None \<Rightarrow> Inl TypeError
      | Some ps \<Rightarrow>
          Inr (map fst (high_confidence_loop dt (tile_size self) 0
                          (zip segmentation_tiles ps))))"

text \<open>The additions of a run stay inside the dtype: for every tile, adding the offset that
  the loop holds when it reaches the tile changes no label of the tile by wrapping.\<close>

definition fits_offset :: "dtype \<Rightarrow> int \<Rightarrow> int raster \<Rightarrow> bool" where
  "fits_offset dt max_label tile \<longleftrightarrow>
     (\<forall>row \<in> set tile. \<forall>v \<in> set row. wrap dt (v + max_label) = v + max_label)"

fun no_overflow :: "dtype \<Rightarrow> nat \<Rightarrow> int \<Rightarrow> (int raster \<times> (nat \<times> nat)) list \<Rightarrow> bool" where
  "no_overflow dt tile_size_v max_label [] = True"
| "no_overflow dt tile_size_v max_label ((tile_segmentation, pos) # rest) =
     (fits_offset dt max_label tile_segmentation
      \<and> no_overflow dt tile_size_v
          (snd (high_confidence_tile dt tile_size_v max_label tile_segmentation)) rest)"


section \<open>Overlap Density Map\<close>

text \<open>The body of the loop of \<^verbatim>\<open>_calculate_overlaps\<close> for one tile at position \<open>(y, x)\<close>:
  the two masked writes into the window of the overlap mask, in the order of the
  source. The overlap mask is computed once, before the first write.\<close>

definition overlaps_tile :: "nat \<Rightarrow> int raster \<times> (nat \<times> nat) \<Rightarrow> int raster \<Rightarrow> int raster" where
  "overlaps_tile tile_size_v = (\<lambda>(tile_segmentation, (y, x)) full_overlap_mask.
     (let y_end = y + tile_size_v;
          x_end = x + tile_size_v;
          overlap_mask_region = slice2 y y_end x x_end full_overlap_mask;
          non_zero_mask = map2d (\<lambda>v. 0 < v) tile_segmentation;
          overlap_mask = zip_with2 (\<lambda>nz r. nz \<and> 0 < r) non_zero_mask overlap_mask_region;
          incremented = store_region y x
            (zip_with2 (\<lambda>m r. if m then r + 1 else r) overlap_mask
               (slice2 y y_end x x_end full_overlap_mask))
            full_overlap_mask
      in store_region y x
           (fill_masked (zip_with2 (\<lambda>m nz. \<not> m \<and> nz) overlap_mask non_zero_mask) 1
              (slice2 y y_end x x_end incremented))
           incremented))"

definition calculate_overlaps :: "segflow \<Rightarrow> int raster list \<Rightarrow> py_error + int raster" where
  "calculate_overlaps self confidence_segmentation_tiles =
     (case image_padded self of
        None \<Rightarrow> Inl AttributeError
      | Some (h, w) \<Rightarrow>
          (case positions self of
             None \<Rightarrow> Inl TypeError
           | Some ps \<Rightarrow>
               Inr (fold (overlaps_tile (tile_size self))
                      (zip confidence_segmentation_tiles ps) (full h w 0))))"

text \<open>Whether the pixel \<open>(i, j)\<close> lies in the region of the tile at \<open>(y, x)\<close>, and whether
  that tile covers it with a positive label.\<close>

definition in_window :: "nat \<Rightarrow> nat \<Rightarrow> nat \<Rightarrow> nat \<Rightarrow> nat \<Rightarrow> bool" where
  "in_window tile_size_v y x i j \<longleftrightarrow>
     y \<le> i \<and> i < y + tile_size_v \<and> x \<le> j \<and> j < x + tile_size_v"

definition claims_pixel :: "nat \<Rightarrow> nat \<Rightarrow> nat \<Rightarrow> int raster \<times> (nat \<times> nat) \<Rightarrow> bool" where
  "claims_pixel tile_size_v i j = (\<lambda>(tile, (y, x)).
     in_window tile_size_v y x i j \<and> 0 < tile ! (i - y) ! (j - x))"

text \<open>Every tile of the list has shape \<open>(t, t)\<close> and its region lies inside an array
  of shape \<open>(H, W)\<close>.\<close>

definition tiles_fit :: "nat \<Rightarrow> nat \<Rightarrow> nat \<Rightarrow> ('a raster \<times> (nat \<times> nat)) list \<Rightarrow> bool" where
  "tiles_fit t H W tps \<longleftrightarrow>
     (\<forall>(tile, (y, x)) \<in> set tps. rect t t tile \<and> y + t \<le> H \<and> x + t \<le> W)"


section \<open>Per-Instance Coverage Scorer\<close>

text \<open>The scores of one tile, as the inner loop of \<^verbatim>\<open>_calculate_tile_overlaps\<close> builds
  them: a dictionary in insertion order.\<close>

definition tile_index_coverage ::
  "real \<Rightarrow> real \<Rightarrow> int \<Rightarrow> int raster \<Rightarrow> int raster \<Rightarrow> (int \<times> real) list" where
  "tile_index_coverage w1 w2 min_pixels_v tile_segmentation overlap_tile =
     fold (\<lambda>label coverage.
             (let label_mask = map2d (\<lambda>v. v = label) tile_segmentation;
                  overlap_values = select_masked label_mask overlap_tile;
                  num_pixels = int (length (filter id (concat label_mask)))
              in if min_pixels_v \<le> num_pixels
                 then (let avg_overlap = real_of_int (sum_list overlap_values)
                                           / real (length overlap_values);
                           sum_overlap = real_of_int (sum_list overlap_values);
                           score = w1 * avg_overlap + w2 * sum_overlap
                       in AList.update label score coverage)
                 else coverage))
       (filter (\<lambda>l. l \<noteq> 0) (unique (concat tile_segmentation))) []"

definition calculate_tile_overlaps ::
  "segflow \<Rightarrow> int raster \<Rightarrow> int raster list \<Rightarrow> py_error + (int \<times> real) list list" where
  "calculate_tile_overlaps self full_overlap_mask confidence_segmentation_tiles =
     (case extract_tiles_of full_overlap_mask (tile_size self) (stride self) of
        Inl e \<Rightarrow> Inl e
      | Inr (overlap_mask_tiles, _) \<Rightarrow>
          (let w1 = average_weight self;
               w2 = sum_weight self;
               min_pixels_v = min_pixels self
           in Inr (map (\<lambda>(tile_segmentation, overlap_tile).
                          tile_index_coverage w1 w2 min_pixels_v tile_segmentation overlap_tile)
                     (zip confidence_segmentation_tiles overlap_mask_tiles))))"

text \<open>The pixels of instance \<open>l\<close> in a tile, in row-major order, and the density values
  under them.\<close>

definition instance_pixels :: "int raster \<Rightarrow> int \<Rightarrow> (nat \<times> nat) list" where
  "instance_pixels tile l =
     concat (map (\<lambda>i. map (\<lambda>j. (i, j)) (filter (\<lambda>j. tile ! i ! j = l) [0..<length (tile ! i)]))
               [0..<length tile])"

definition instance_density :: "int raster \<Rightarrow> int raster \<Rightarrow> int \<Rightarrow> int list" where
  "instance_density tile density l = map (\<lambda>(i, j). density ! i ! j) (instance_pixels tile l)"


section \<open>Recombiner\<close>

text \<open>The mosaic: the label raster, the score raster and the contention counter.\<close>

record mosaic =
  full_segmentation_mask :: "int raster"
  full_score_map :: "real raster"
  total_pixels_overwritten :: int

text \<open>The tile score map: zero everywhere, then one masked fill per entry of the
  coverage dictionary.\<close>

definition tile_score_map_of :: "int raster \<Rightarrow> (int \<times> real) list \<Rightarrow> real raster" where
  "tile_score_map_of tile_segmentation index_coverage =
     fold (\<lambda>(label, score) tile_score_map.
             fill_masked (map2d (\<lambda>v. v = label) tile_segmentation) score tile_score_map)
       index_coverage (map2d (\<lambda>_. 0) tile_segmentation)"

text \<open>The overwrite mask of a tile against the score region under it.\<close>

definition overwrite_mask_of :: "int raster \<Rightarrow> real raster \<Rightarrow> real raster \<Rightarrow> bool raster" where
  "overwrite_mask_of tile_segmentation tile_score_map full_score_region =
     zip_with2 (\<and>) (zip_with2 (\<lambda>ts fs. fs < ts) tile_score_map full_score_region)
       (map2d (\<lambda>v. 0 < v) tile_segmentation)"

text \<open>The body of the loop of \<^verbatim>\<open>ingest_tile_segmentation\<close> for one tile.\<close>

definition recombine_tile ::
  "nat \<Rightarrow> int raster \<times> (nat \<times> nat) \<times> (int \<times> real) list \<Rightarrow> mosaic \<Rightarrow> mosaic" where
  "recombine_tile tile_size_v = (\<lambda>(tile_segmentation, (y, x), index_coverage) m.
     (let y_end = y + tile_size_v;
          x_end = x + tile_size_v;
          full_mask_region = slice2 y y_end x x_end (full_segmentation_mask m);
          full_score_region = slice2 y y_end x x_end (full_score_map m);
          tile_score_map = tile_score_map_of tile_segmentation index_coverage;
          overwrite_mask = overwrite_mask_of tile_segmentation tile_score_map full_score_region;
          overlapping_pixels =
            int (length (filter id (concat
              (zip_with2 (\<and>) overwrite_mask (map2d (\<lambda>v. 0 < v) full_mask_region)))))
      in \<lparr> full_segmentation_mask =
             store_region y x (assign_masked overwrite_mask tile_segmentation full_mask_region)
               (full_segmentation_mask m),
           full_score_map =
             store_region y x (assign_masked overwrite_mask tile_score_map full_score_region)
               (full_score_map m),
           total_pixels_overwritten = total_pixels_overwritten m + overlapping_pixels \<rparr>))"

text \<open>The loop over the tiles in iteration order, from a given mosaic.\<close>

definition recombine ::
  "nat \<Rightarrow> (int raster \<times> (nat \<times> nat) \<times> (int \<times> real) list) list \<Rightarrow> mosaic \<Rightarrow> mosaic" where
  "recombine tile_size_v tiles m = fold (recombine_tile tile_size_v) tiles m"

definition unclaimed :: "nat \<Rightarrow> nat \<Rightarrow> mosaic" where
  "unclaimed h w = \<lparr> full_segmentation_mask = full h w 0, full_score_map = full h w 0,
                     total_pixels_overwritten = 0 \<rparr>"

text \<open>Reading the mosaic and a placed tile at a pixel \<open>(i, j)\<close> of the padded extent: the
  recorded label and score, and the label and broadcast score the tile holds there.\<close>

definition label_at :: "mosaic \<Rightarrow> nat \<Rightarrow> nat \<Rightarrow> int" where
  "label_at m i j = full_segmentation_mask m ! i ! j"

definition score_at :: "mosaic \<Rightarrow> nat \<Rightarrow> nat \<Rightarrow> real" where
  "score_at m i j = full_score_map m ! i ! j"

definition tile_label_at ::
  "int raster \<times> (nat \<times> nat) \<times> (int \<times> real) list \<Rightarrow> nat \<Rightarrow> nat \<Rightarrow> int" where
  "tile_label_at = (\<lambda>(tile, (y, x), index_coverage) i j. tile ! (i - y) ! (j - x))"

definition tile_score_at ::
  "int raster \<times> (nat \<times> nat) \<times> (int \<times> real) list \<Rightarrow> nat \<Rightarrow> nat \<Rightarrow> real" where
  "tile_score_at = (\<lambda>(tile, (y, x), index_coverage) i j.
     tile_score_map_of tile index_coverage ! (i - y) ! (j - x))"

definition covers :: "nat \<Rightarrow> int raster \<times> (nat \<times> nat) \<times> (int \<times> real) list \<Rightarrow> nat \<Rightarrow> nat \<Rightarrow> bool" where
  "covers tile_size_v = (\<lambda>(tile, (y, x), index_coverage) i j. in_window tile_size_v y x i j)"

text \<open>The mosaic rasters have the padded shape, and the tiles of a run fit into it.\<close>

definition mosaic_fits :: "nat \<Rightarrow> nat \<Rightarrow> mosaic \<Rightarrow> bool" where
  "mosaic_fits H W m \<longleftrightarrow> rect H W (full_segmentation_mask m) \<and> rect H W (full_score_map m)"

definition run_fits ::
  "nat \<Rightarrow> nat \<Rightarrow> nat \<Rightarrow> (int raster \<times> (nat \<times> nat) \<times> (int \<times> real) list) list \<Rightarrow> bool" where
  "run_fits t H W tiles \<longleftrightarrow> tiles_fit t H W (map (\<lambda>(tile, pos, index_coverage). (tile, pos)) tiles)"

text \<open>\<^verbatim>\<open>ingest_tile_segmentation\<close> on label tiles of dtype \<open>dt\<close>. The cell statistics are
  only printed, but \<^verbatim>\<open>np.concatenate\<close> raises on an empty list of tiles.\<close>

definition ingest_tile_segmentation ::
  "segflow \<Rightarrow> dtype \<Rightarrow> int raster list \<Rightarrow> py_error + int raster" where
  "ingest_tile_segmentation self dt segmentation_tiles =
     (case positions self of
        None \<Rightarrow> Inl ValueError
      | Some ps \<Rightarrow>
          (case calculate_high_confidence_tiles self dt segmentation_tiles of
             Inl e \<Rightarrow> Inl e
           | Inr confidence_segmentation_tiles \<Rightarrow>
               (case calculate_overlaps self confidence_segmentation_tiles of
                  Inl e \<Rightarrow> Inl e
                | Inr full_overlap_mask \<Rightarrow>
                    (case calculate_tile_overlaps self full_overlap_mask
                            confidence_segmentation_tiles of
                       Inl e \<Rightarrow> Inl e
                     | Inr index_coverage_tiles \<Rightarrow>
                         (case image_padded self of
                            None \<Rightarrow> Inl AttributeError
                          | Some (h, w) \<Rightarrow>
                              (if confidence_segmentation_tiles = [] then Inl ValueError
                               else crop_padded self
                                      (full_segmentation_mask
                                         (recombine (tile_size self)
                                            (zip confidence_segmentation_tiles
                                               (zip ps index_coverage_tiles))
                                            (unclaimed h w)))))))))"


section \<open>Continuous-Tile Blending\<close>

text \<open>\<^verbatim>\<open>np.hanning(M)\<close> is a library function:
  \<^verbatim>\<open>0.5 + 0.5 * cos(pi * n / (M - 1))\<close> for \<^verbatim>\<open>n = 1 - M, 3 - M, ..., M - 1\<close>, a single \<open>1\<close>
  for \<open>M = 1\<close> and nothing for \<open>M < 1\<close>.\<close>

definition hanning :: "nat \<Rightarrow> real list" where
  "hanning M =
     (if M < 1 then []
      else if M = 1 then [1]
      else map (\<lambda>k. 1 / 2 + 1 / 2 * cos (pi * (2 * real k + 1 - real M) / (real M - 1)))
             [0..<M])"

text \<open>The weighting window: the outer product of the Hann vector with itself, divided
  by its maximum. The maximum of an empty array raises; a zero maximum (tile size 2)
  makes numpy fill the window with NaN, which the real numbers cannot represent.\<close>

definition weighting_window :: "nat \<Rightarrow> py_error + real raster" where
  "weighting_window tile_size_v =
     (let hann = hanning tile_size_v;
          window = map (\<lambda>a. map (\<lambda>b. a * b) hann) hann
      in if concat window = [] then Inl ValueError
         else if raster_max window = 0 then Inl NotANumber
         else Inr (map2d (\<lambda>v. v / raster_max window) window))"

text \<open>The body of the loop of \<^verbatim>\<open>combine_continuous_tiles\<close> for one tile: the weighted
  tile is added to the image accumulator, the window to the weight accumulator.\<close>

definition blend_tile ::
  "nat \<Rightarrow> real raster \<Rightarrow> real raster \<times> (nat \<times> nat) \<Rightarrow> real raster \<times> real raster
     \<Rightarrow> real raster \<times> real raster" where
  "blend_tile tile_size_v window = (\<lambda>(tile, (row_start, col_start)) (reconstructed_image, weight_matrix).
     (let row_end = row_start + tile_size_v;
          col_end = col_start + tile_size_v
      in (store_region row_start col_start
            (zip_with2 (+) (slice2 row_start row_end col_start col_end reconstructed_image)
               (zip_with2 (*) tile window))
            reconstructed_image,
          store_region row_start col_start
            (zip_with2 (+) (slice2 row_start row_end col_start col_end weight_matrix) window)
            weight_matrix)))"

text \<open>The accumulators after all tiles, then the guarded division.\<close>

definition accumulate_tiles ::
  "nat \<Rightarrow> real raster \<Rightarrow> nat \<times> nat \<Rightarrow> (real raster \<times> (nat \<times> nat)) list
     \<Rightarrow> real raster \<times> real raster" where
  "accumulate_tiles tile_size_v window shp tiles =
     fold (blend_tile tile_size_v window) tiles (full (fst shp) (snd shp) 0, full (fst shp) (snd shp) 0)"

definition normalise_weights :: "real raster \<times> real raster \<Rightarrow> real raster" where
  "normalise_weights = (\<lambda>(reconstructed_image, weight_matrix).
     zip_with2 (/) reconstructed_image (map2d (\<lambda>w. if w = 0 then 1 else w) weight_matrix))"

text \<open>\<^verbatim>\<open>combine_continuous_tiles\<close>, with the raster before the crop as a function of its
  own.\<close>

definition blend_padded :: "segflow \<Rightarrow> real raster list \<Rightarrow> py_error + real raster" where
  "blend_padded self tiles =
     (case image_padded self of
        None \<Rightarrow> Inl AttributeError
      | Some shp \<Rightarrow>
          (if tiles = [] then Inl IndexError
           else (case weighting_window (tile_size self) of
                   Inl e \<Rightarrow> Inl e
                 | Inr window \<Rightarrow>
                     (case positions self of
                        None \<Rightarrow> Inl TypeError
                      | Some ps \<Rightarrow>
                          Inr (normalise_weights
                                 (accumulate_tiles (tile_size self) window shp
                                    (zip tiles ps)))))))"

definition combine_continuous_tiles :: "segflow \<Rightarrow> real raster list \<Rightarrow> py_error + real raster" where
  "combine_continuous_tiles self tiles =
     (case blend_padded self tiles of
        Inl e \<Rightarrow> Inl e
      | Inr reconstructed_image \<Rightarrow> crop_padded self reconstructed_image)"


text \<open>A tile cut from a constant image, and the window weight that the tiles of a list
  accumulate at a pixel of the padded extent.\<close>

definition constant_tile :: "real \<Rightarrow> real raster \<Rightarrow> bool" where
  "constant_tile c tile \<longleftrightarrow> (\<forall>row \<in> set tile. \<forall>v \<in> set row. v = c)"

definition pixel_weight ::
  "nat \<Rightarrow> real raster \<Rightarrow> (real raster \<times> (nat \<times> nat)) list \<Rightarrow> nat \<Rightarrow> nat \<Rightarrow> real" where
  "pixel_weight tile_size_v window tps i j =
     sum_list (map (\<lambda>(tile, (y, x)).
                 if in_window tile_size_v y x i j then window ! (i - y) ! (j - x) else 0) tps)"


section \<open>The area property of a segmentation image\<close>

text \<open>A \<^verbatim>\<open>SegmentationImage\<close> over an integer label array, with the cache field the \<^verbatim>\<open>area\<close>
  property reads and the stored checksum. The MD5 digest of the contents is modelled by
  the contents themselves.\<close>

record segmentation_image =
  pixels :: "int raster"
  area_cache :: "(int \<times> nat) list option"
  checksum :: "int raster"

definition calculate_checksum :: "segmentation_image \<Rightarrow> int raster" where
  "calculate_checksum self = pixels self"

text \<open>\<^verbatim>\<open>SegmentationImage.__new__\<close> on a two-dimensional integer array: every cache starts
  as \<^verbatim>\<open>None\<close>.\<close>

definition new_segmentation_image :: "int raster \<Rightarrow> segmentation_image" where
  "new_segmentation_image input_array =
     \<lparr> pixels = input_array, area_cache = None, checksum = input_array \<rparr>"

text \<open>\<^verbatim>\<open>skimage.measure.regionprops\<close> is a library function: it returns one region for each
  positive label that occurs in the array, in ascending order of the label. A region is
  represented by its \<^verbatim>\<open>label\<close> attribute.\<close>

definition regionprops :: "int raster \<Rightarrow> int list" where
  "regionprops a = filter (\<lambda>l. 0 < l) (unique (concat a))"

text \<open>The loop of \<^verbatim>\<open>_calculate_area\<close>. For a region whose label is not \<open>0\<close> the body
  evaluates \<^verbatim>\<open>np.sum(labeled_image == label)\<close>; neither \<^verbatim>\<open>labeled_image\<close> nor \<^verbatim>\<open>label\<close> is
  bound in the function, the class or the module, so the evaluation raises \<^verbatim>\<open>NameError\<close>
  and the store into the dictionary is never reached.\<close>

fun area_loop :: "int list \<Rightarrow> (int \<times> nat) list \<Rightarrow> py_error + (int \<times> nat) list" where
  "area_loop [] area_dict = Inr area_dict"
| "area_loop (region_label # regions) area_dict =
     (if region_label \<noteq> 0 then Inl NameError else area_loop regions area_dict)"

text \<open>\<^verbatim>\<open>_calculate_area\<close> returns the dictionary and leaves the object with the cache and
  the checksum updated.\<close>

definition calculate_area ::
  "segmentation_image \<Rightarrow> py_error + ((int \<times> nat) list \<times> segmentation_image)" where
  "calculate_area self =
     (let current_checksum = calculate_checksum self
      in (case area_cache self of
            Some cached \<Rightarrow>
              (if current_checksum = checksum self then Inr (cached, self)
               else (case area_loop (regionprops (pixels self)) [] of
                       Inl e \<Rightarrow> Inl e
                     | Inr area_dict \<Rightarrow>
                         Inr (area_dict, self\<lparr> area_cache := Some area_dict,
                                              checksum := current_checksum \<rparr>)))
          | None \<Rightarrow>
              (case area_loop (regionprops (pixels self)) [] of
                 Inl e \<Rightarrow> Inl e
               | Inr area_dict \<Rightarrow>
                   Inr (area_dict, self\<lparr> area_cache := Some area_dict,
                                        checksum := current_checksum \<rparr>))))"

text \<open>The property \<^verbatim>\<open>area\<close>: computes when the cache is empty, then returns the cache.\<close>

definition area ::
  "segmentation_image \<Rightarrow> py_error + ((int \<times> nat) list option \<times> segmentation_image)" where
  "area self =
     (case area_cache self of
        None \<Rightarrow>
          (case calculate_area self of
             Inl e \<Rightarrow> Inl e
           | Inr (_, self') \<Rightarrow> Inr (area_cache self', self'))
      | Some cached \<Rightarrow> Inr (Some cached, self))"


section \<open>A small coordinator used in examples\<close>

text \<open>\<^verbatim>\<open>SegFlow(tile_size=3, stride=2)\<close> after loading a 2 by 2 image, \<^verbatim>\<open>pad_image()\<close> and
  \<^verbatim>\<open>extract_tiles()\<close>.\<close>

definition small_coordinator :: "py_error + segflow" where
  "small_coordinator =
     (case pad_image (load_numpy_arrays 2 2 (init 3 2 (7 / 10) (3 / 10) 5)) of
        Inl e \<Rightarrow> Inl e
      | Inr s \<Rightarrow> extract_tiles s)"

text \<open>The state the three calls leave: a 5 by 5 padded image and four tile positions.\<close>

definition small_state :: segflow where
  "small_state =
     \<lparr> tile_size = 3, stride = 2, average_weight = 7 / 10, sum_weight = 3 / 10,
       min_pixels = 5, image = Some (2, 2), image_padded = Some (5, 5),
       pad_top = Some 1, pad_bottom = Some 2, pad_left = Some 1, pad_right = Some 2,
       positions = Some [(0, 0), (0, 2), (2, 0), (2, 2)] \<rparr>"


text \<open>The recombination run of the four tiles of that coordinator when every tile is
  filled with one instance: the confidence tiles carry the ids 1 to 4 and every instance
  has the coverage score \<open>272 / 45\<close>.\<close>

definition tie_run :: "(int raster \<times> (nat \<times> nat) \<times> (int \<times> real) list) list" where
  "tie_run =
     [([[1, 1, 1], [1, 1, 1], [1, 1, 1]], (0, 0), [(1, 272 / 45)]),
      ([[2, 2, 2], [2, 2, 2], [2, 2, 2]], (0, 2), [(2, 272 / 45)]),
      ([[3, 3, 3], [3, 3, 3], [3, 3, 3]], (2, 0), [(3, 272 / 45)]),
      ([[4, 4, 4], [4, 4, 4], [4, 4, 4]], (2, 2), [(4, 272 / 45)])]"


section \<open>Padding arithmetic\<close>

lemma pad_total_residue:
  assumes "0 < stride_v" and "pad_total tile_size_v stride_v S = Inr p"
  shows "(p + int S - int tile_size_v) mod int stride_v = (2 * int tile_size_v) mod int stride_v"
proof -
  from assms have p: "p = int tile_size_v
      + ((int tile_size_v - (int S - int tile_size_v) mod int stride_v) mod int stride_v)"
    by (simp add: pad_total_def)
  have "(p + int S - int tile_size_v) mod int stride_v
        = (int S + (int tile_size_v - (int S - int tile_size_v) mod int stride_v) mod int stride_v)
            mod int stride_v"
    by (simp add: p algebra_simps)
  also have "\<dots> = (int S + (int tile_size_v - (int S - int tile_size_v))) mod int stride_v"
    by (metis mod_add_right_eq mod_diff_right_eq)
  also have "\<dots> = (2 * int tile_size_v) mod int stride_v"
    by (simp add: algebra_simps)
  finally show ?thesis .
qed

text \<open>Claim C7 (the pad amounts make the stride grid end flush) at tile size 100,
  stride 70 and a 200 by 200 image: the total padding is the formula's 100 per axis, split
  50 and 50, but \<open>(50 + 50 + 200 - 100) mod 70\<close> is 60, the padded axis of 300 gets the
  tile rows 0, 70 and 140 only, and the last tile ends at row 240 while the image occupies
  the padded rows 50 to 249.\<close>

theorem pad_image_not_flush:
  "pad_total 100 70 200 = Inr 100
   \<and> (\<exists>s. pad_image (load_numpy_arrays 200 200 (init 100 70 (7 / 10) (3 / 10) 5)) = Inr s
         \<and> pad_top s = Some 50 \<and> pad_bottom s = Some 50
         \<and> pad_left s = Some 50 \<and> pad_right s = Some 50
         \<and> image_padded s = Some (300, 300)
         \<and> (50 + 50 + 200 - 100) mod (70::int) = 60
         \<and> tile_positions (300, 300) (tile_size s) (stride s)
             = Inr [(0, 0), (0, 70), (0, 140), (70, 0), (70, 70), (70, 140),
                    (140, 0), (140, 70), (140, 140)]
         \<and> (140::nat) + tile_size s < 50 + 200)"
  by (simp add: pad_total_def pad_image_def load_numpy_arrays_def init_def
      tile_positions_def range0_def upt_rec)


section \<open>Cropping\<close>

text \<open>Claim C9 (the crop returns the central region also when a pad amount is zero) at
  a 3 by 3 raster with pad amounts top 1, bottom 1, left 1, right 0: the pre-pad raster
  is the 1 by 2 block \<open>[[5, 6]]\<close>, the code returns one row with no column. Through
  \<^verbatim>\<open>pad_image\<close> a zero right pad arises for tile size 0: \<^verbatim>\<open>SegFlow(tile_size=0, stride=1)\<close>
  with a 3 by 3 image records four zero pad amounts, and the crop of a 3 by 3 raster
  returns three empty rows instead of the raster.\<close>

theorem crop_padded_zero_right_pad:
  "crop_padded \<lparr> tile_size = 3, stride = 1, average_weight = 7 / 10, sum_weight = 3 / 10,
        min_pixels = 5, image = Some (1, 2), image_padded = Some (3, 3),
        pad_top = Some 1, pad_bottom = Some 1, pad_left = Some 1, pad_right = Some 0,
        positions = None \<rparr>
      [[1, 2, 3], [4, 5, 6], [7, 8, 9 :: int]] = Inr [[]]
   \<and> (\<exists>s. pad_image (load_numpy_arrays 3 3 (init 0 1 (7 / 10) (3 / 10) 5)) = Inr s
         \<and> pad_top s = Some 0 \<and> pad_bottom s = Some 0
         \<and> pad_left s = Some 0 \<and> pad_right s = Some 0
         \<and> image_padded s = Some (3, 3)
         \<and> crop_padded s [[1, 2, 3], [4, 5, 6], [7, 8, 9 :: int]] = Inr [[], [], []])"
  by (simp add: crop_padded_def py_slice_def py_index_def pad_image_def pad_total_def
      load_numpy_arrays_def init_def)


section \<open>The area property\<close>

lemma area_loop_NameError:
  "\<exists>l \<in> set regions. l \<noteq> 0 \<Longrightarrow> area_loop regions acc = Inl NameError"
  by (induction regions) auto

lemma regionprops_positive:
  "set (regionprops a) = {l \<in> set (concat a). 0 < l}"
  by (auto simp: regionprops_def unique_def)

lemma area_NameError_of_positive:
  assumes "area_cache self = None" and "v \<in> set (concat (pixels self))" and "0 < v"
  shows "area self = Inl NameError"
proof -
  from assms(2,3) have "v \<in> set (regionprops (pixels self))"
    by (simp add: regionprops_positive)
  with assms(3) have "\<exists>l \<in> set (regionprops (pixels self)). l \<noteq> 0"
    by (intro bexI [of _ v]) auto
  then have "area_loop (regionprops (pixels self)) [] = Inl NameError"
    by (rule area_loop_NameError)
  with assms(1) show ?thesis
    by (simp add: area_def calculate_area_def)
qed

text \<open>Claim C10 says that every segmentation image with a non-zero label raises
  \<^verbatim>\<open>NameError\<close> when its \<^verbatim>\<open>area\<close> is read. The image \<open>[[0, -1], [-1, 0]]\<close> holds the non-zero
  label \<open>-1\<close>, \<^verbatim>\<open>regionprops\<close> finds no region in it, the loop body never runs and \<^verbatim>\<open>area\<close>
  returns the empty mapping.\<close>

theorem area_of_negative_labels_is_empty:
  "(\<exists>row \<in> set [[0, - 1], [- 1, 0 :: int]]. \<exists>v \<in> set row. v \<noteq> 0)
   \<and> area (new_segmentation_image [[0, - 1], [- 1, 0]])
     = Inr (Some [], \<lparr> pixels = [[0, - 1], [- 1, 0]], area_cache = Some [],
                       checksum = [[0, - 1], [- 1, 0]] \<rparr>)
   \<and> area (new_segmentation_image [[0, - 1], [- 1, 0]]) \<noteq> Inl NameError"
  by (simp add: area_def calculate_area_def calculate_checksum_def new_segmentation_image_def
      regionprops_def unique_def)

text \<open>Claim C10 as amended: a segmentation image over an integer array that contains at
  least one positive label raises \<^verbatim>\<open>NameError\<close> when its \<^verbatim>\<open>area\<close> is read, and never returns
  a mapping. This holds for the freshly constructed object and for every later state of
  it whose area cache is empty; since the failing computation never fills the cache,
  every read fails.\<close>

theorem area_raises_NameError:
  assumes "\<exists>row \<in> set a. \<exists>v \<in> set row. 0 < v"
  shows "area (new_segmentation_image a) = Inl NameError
         \<and> (\<forall>self. pixels self = a \<and> area_cache self = None \<longrightarrow> area self = Inl NameError)"
proof -
  from assms obtain row v where rv: "row \<in> set a" "v \<in> set row" "0 < v"
    by blast
  then have mem: "v \<in> set (concat a)"
    by auto
  have "area self = Inl NameError" if "pixels self = a" "area_cache self = None" for self
    using area_NameError_of_positive [of self v] that rv(3) mem by simp
  then show ?thesis
    by (simp add: new_segmentation_image_def)
qed

theorem area_raises_NameError_witness:
  "(\<exists>row \<in> set [[1, - 1 :: int]]. \<exists>v \<in> set row. 0 < v)
   \<and> area (new_segmentation_image [[1, - 1]]) = Inl NameError"
  using area_raises_NameError [of "[[1, - 1]]"] by simp


section \<open>Rasters\<close>

text \<open>Shapes and cell values of the array operations, for arrays of the expected shapes.\<close>

lemma rect_row: "rect h w a \<Longrightarrow> i < h \<Longrightarrow> length (a ! i) = w"
  by (simp add: rect_def)

lemma rect_length: "rect h w a \<Longrightarrow> length a = h"
  by (simp add: rect_def)

lemma rect_full: "rect h w (full h w v)"
  by (simp add: rect_def full_def)

lemma full_nth: "i < h \<Longrightarrow> j < w \<Longrightarrow> full h w v ! i ! j = v"
  by (simp add: full_def)

lemma rect_map2d: "rect h w a \<Longrightarrow> rect h w (map2d f a)"
  by (simp add: rect_def map2d_def)

lemma map2d_nth: "i < length a \<Longrightarrow> j < length (a ! i) \<Longrightarrow> map2d f a ! i ! j = f (a ! i ! j)"
  by (simp add: map2d_def)

lemma rect_zip_with2: "rect h w a \<Longrightarrow> rect h w b \<Longrightarrow> rect h w (zip_with2 f a b)"
  by (auto simp: rect_def zip_with2_def set_zip)

lemma zip_with2_nth:
  "rect h w a \<Longrightarrow> rect h w b \<Longrightarrow> i < h \<Longrightarrow> j < w
   \<Longrightarrow> zip_with2 f a b ! i ! j = f (a ! i ! j) (b ! i ! j)"
  by (simp add: rect_def zip_with2_def)

lemma rect_slice2:
  "rect H W a \<Longrightarrow> y + t \<le> H \<Longrightarrow> x + t \<le> W \<Longrightarrow> rect t t (slice2 y (y + t) x (x + t) a)"
  by (auto simp: rect_def slice2_def dest!: in_set_takeD in_set_dropD)

lemma slice2_nth:
  "rect H W a \<Longrightarrow> y + t \<le> H \<Longrightarrow> x + t \<le> W \<Longrightarrow> i < t \<Longrightarrow> j < t
   \<Longrightarrow> slice2 y (y + t) x (x + t) a ! i ! j = a ! (y + i) ! (x + j)"
  by (simp add: rect_def slice2_def)

lemma rect_store_region: "rect H W a \<Longrightarrow> rect H W (store_region y x r a)"
  by (auto simp: rect_def store_region_def)

lemma store_region_nth:
  "rect H W a \<Longrightarrow> rect t t r \<Longrightarrow> i < H \<Longrightarrow> j < W
   \<Longrightarrow> store_region y x r a ! i ! j
       = (if y \<le> i \<and> i < y + t \<and> x \<le> j \<and> j < x + t then r ! (i - y) ! (j - x) else a ! i ! j)"
  by (auto simp: rect_def store_region_def)

lemma rect_assign_masked:
  "rect h w m \<Longrightarrow> rect h w s \<Longrightarrow> rect h w d \<Longrightarrow> rect h w (assign_masked m s d)"
  by (simp add: assign_masked_def rect_zip_with2)

lemma assign_masked_nth:
  "rect h w m \<Longrightarrow> rect h w s \<Longrightarrow> rect h w d \<Longrightarrow> i < h \<Longrightarrow> j < w
   \<Longrightarrow> assign_masked m s d ! i ! j = (if m ! i ! j then s ! i ! j else d ! i ! j)"
  by (simp add: assign_masked_def zip_with2_nth rect_zip_with2)

lemma rect_fill_masked: "rect h w m \<Longrightarrow> rect h w d \<Longrightarrow> rect h w (fill_masked m v d)"
  by (simp add: fill_masked_def rect_zip_with2)

lemma fill_masked_nth:
  "rect h w m \<Longrightarrow> rect h w d \<Longrightarrow> i < h \<Longrightarrow> j < w
   \<Longrightarrow> fill_masked m v d ! i ! j = (if m ! i ! j then v else d ! i ! j)"
  by (simp add: fill_masked_def zip_with2_nth)

lemma store_region_inside:
  assumes "rect H W a" "rect t t r" "i < H" "j < W" "in_window t y x i j"
  shows "store_region y x r a ! i ! j = r ! (i - y) ! (j - x)"
  using store_region_nth [OF assms(1-4), of y x] assms(5) by (simp add: in_window_def)

lemma store_region_outside:
  assumes "rect H W a" "rect t t r" "i < H" "j < W" "\<not> in_window t y x i j"
  shows "store_region y x r a ! i ! j = a ! i ! j"
  using store_region_nth [OF assms(1-4), of y x] assms(5) by (auto simp: in_window_def)

lemma slice2_window:
  assumes "rect H W a" "y + t \<le> H" "x + t \<le> W" "in_window t y x i j"
  shows "slice2 y (y + t) x (x + t) a ! (i - y) ! (j - x) = a ! i ! j"
proof -
  from assms(4) have lt: "i - y < t" "j - x < t" and inv: "y + (i - y) = i" "x + (j - x) = j"
    by (auto simp: in_window_def)
  from slice2_nth [OF assms(1-3) lt] inv show ?thesis by simp
qed

lemma in_window_less: "in_window t y x i j \<Longrightarrow> i - y < t \<and> j - x < t"
  by (auto simp: in_window_def)

lemma rect_overlaps_tile:
  "rect H W a \<Longrightarrow> rect H W (overlaps_tile t (tile, (y, x)) a)"
  by (simp add: overlaps_tile_def Let_def rect_store_region)

lemma overlaps_tile_nth:
  assumes a: "rect H W a" and tile: "rect t t tile" and fit: "y + t \<le> H" "x + t \<le> W"
    and ij: "i < H" "j < W"
  shows "overlaps_tile t (tile, (y, x)) a ! i ! j
         = (if claims_pixel t i j (tile, (y, x))
            then (if 0 < a ! i ! j then a ! i ! j + 1 else 1) else a ! i ! j)"
proof -
  let ?reg = "slice2 y (y + t) x (x + t) a"
  let ?nz = "map2d (\<lambda>v. 0 < v) tile"
  let ?om = "zip_with2 (\<lambda>nz r. nz \<and> 0 < r) ?nz ?reg"
  let ?r1 = "zip_with2 (\<lambda>m r. if m then r + 1 else r) ?om ?reg"
  let ?inc = "store_region y x ?r1 a"
  let ?fc = "zip_with2 (\<lambda>m nz. \<not> m \<and> nz) ?om ?nz"
  let ?r2 = "fill_masked ?fc 1 (slice2 y (y + t) x (x + t) ?inc)"
  have reg: "rect t t ?reg" using a fit by (rule rect_slice2)
  have nz: "rect t t ?nz" using tile by (rule rect_map2d)
  have om: "rect t t ?om" using nz reg by (rule rect_zip_with2)
  have r1: "rect t t ?r1" using om reg by (rule rect_zip_with2)
  have inc: "rect H W ?inc" using a by (rule rect_store_region)
  have reg2: "rect t t (slice2 y (y + t) x (x + t) ?inc)" using inc fit by (rule rect_slice2)
  have fc: "rect t t ?fc" using om nz by (rule rect_zip_with2)
  have r2: "rect t t ?r2" using fc reg2 by (rule rect_fill_masked)
  have res: "overlaps_tile t (tile, (y, x)) a = store_region y x ?r2 ?inc"
    by (simp add: overlaps_tile_def Let_def)
  show ?thesis
  proof (cases "in_window t y x i j")
    case False
    have "store_region y x ?r2 ?inc ! i ! j = ?inc ! i ! j"
      using inc r2 ij False by (rule store_region_outside)
    also have "\<dots> = a ! i ! j"
      using a r1 ij False by (rule store_region_outside)
    finally show ?thesis
      using False by (simp add: res claims_pixel_def)
  next
    case True
    then have lt: "i - y < t" "j - x < t" by (auto simp: in_window_def)
    have tl: "length tile = t" "length (tile ! (i - y)) = t"
      using tile lt by (simp_all add: rect_def)
    have regv: "?reg ! (i - y) ! (j - x) = a ! i ! j"
      using a fit True by (rule slice2_window)
    have nzv: "?nz ! (i - y) ! (j - x) \<longleftrightarrow> 0 < tile ! (i - y) ! (j - x)"
      using lt tl by (simp add: map2d_nth)
    have omv: "?om ! (i - y) ! (j - x) \<longleftrightarrow> 0 < tile ! (i - y) ! (j - x) \<and> 0 < a ! i ! j"
      using zip_with2_nth [OF nz reg lt, of "\<lambda>nz r. nz \<and> 0 < r"] nzv regv by simp
    have r1v: "?r1 ! (i - y) ! (j - x)
               = (if 0 < tile ! (i - y) ! (j - x) \<and> 0 < a ! i ! j then a ! i ! j + 1 else a ! i ! j)"
      using zip_with2_nth [OF om reg lt, of "\<lambda>m r. if m then r + 1 else r"] omv regv by simp
    have incv: "?inc ! i ! j = ?r1 ! (i - y) ! (j - x)"
      using a r1 ij True by (rule store_region_inside)
    have reg2v: "slice2 y (y + t) x (x + t) ?inc ! (i - y) ! (j - x) = ?inc ! i ! j"
      using inc fit True by (rule slice2_window)
    have fcv: "?fc ! (i - y) ! (j - x)
               \<longleftrightarrow> \<not> (0 < tile ! (i - y) ! (j - x) \<and> 0 < a ! i ! j) \<and> 0 < tile ! (i - y) ! (j - x)"
      using zip_with2_nth [OF om nz lt, of "\<lambda>m nz. \<not> m \<and> nz"] omv nzv by simp
    have r2v: "?r2 ! (i - y) ! (j - x)
               = (if ?fc ! (i - y) ! (j - x) then 1 else ?inc ! i ! j)"
      using fill_masked_nth [OF fc reg2 lt, of 1] reg2v by simp
    have "store_region y x ?r2 ?inc ! i ! j = ?r2 ! (i - y) ! (j - x)"
      using inc r2 ij True by (rule store_region_inside)
    then show ?thesis
      using True r2v fcv incv r1v by (auto simp: res claims_pixel_def)
  qed
qed

lemma overlaps_fold_nth:
  assumes "tiles_fit t H W tps" and "rect H W a" and "i < H" and "j < W" and "0 \<le> a ! i ! j"
  shows "rect H W (fold (overlaps_tile t) tps a)
         \<and> fold (overlaps_tile t) tps a ! i ! j
           = a ! i ! j + int (length (filter (claims_pixel t i j) tps))"
  using assms
proof (induction tps arbitrary: a)
  case Nil
  then show ?case by simp
next
  case (Cons tp tps)
  obtain tile y x where tp: "tp = (tile, (y, x))" by (cases tp) auto
  from Cons.prems(1) have fit: "rect t t tile" "y + t \<le> H" "x + t \<le> W" and rest: "tiles_fit t H W tps"
    by (auto simp: tiles_fit_def tp)
  let ?a' = "overlaps_tile t (tile, (y, x)) a"
  have r': "rect H W ?a'" using Cons.prems(2) by (rule rect_overlaps_tile)
  have v': "?a' ! i ! j = a ! i ! j + (if claims_pixel t i j (tile, (y, x)) then 1 else 0)"
    using overlaps_tile_nth [OF Cons.prems(2) fit Cons.prems(3,4)] Cons.prems(5) by auto
  then have nn: "0 \<le> ?a' ! i ! j" using Cons.prems(5) by auto
  from Cons.IH [OF rest r' Cons.prems(3,4) nn] v' show ?case
    by (simp add: tp)
qed


section \<open>The example coordinator\<close>

lemma small_coordinator_state: "small_coordinator = Inr small_state"
  by (simp add: small_coordinator_def small_state_def pad_image_def pad_total_def
      load_numpy_arrays_def init_def extract_tiles_def tile_positions_def range0_def upt_rec)


lemma small_fields:
  "positions small_state = Some [(0, 0), (0, 2), (2, 0), (2, 2)]"
  "image_padded small_state = Some (5, 5)"
  "tile_size small_state = 3"
  by (simp_all add: small_state_def)

lemma full_5_5: "full 5 5 v = [[v, v, v, v, v], [v, v, v, v, v], [v, v, v, v, v],
     [v, v, v, v, v], [v, v, v, v, v]]"
  by (simp add: full_def eval_nat_numeral)


section \<open>Overlap density\<close>

text \<open>Claim C6: when every confidence tile has the tile shape and lies inside the padded
  extent, \<^verbatim>\<open>_calculate_overlaps\<close> returns a raster of the padded shape whose value at each
  pixel is the number of tiles that cover the pixel with a positive (non-background)
  label. So the value is at least 1 exactly on the union of the tile footprints, and a
  pixel no tile claims stays 0.\<close>

theorem overlap_density_counts:
  assumes "image_padded self = Some (H, W)" and "positions self = Some ps"
    and "tiles_fit (tile_size self) H W (zip tiles ps)"
    and "i < H" and "j < W"
  shows "\<exists>d. calculate_overlaps self tiles = Inr d \<and> rect H W d
           \<and> d ! i ! j = int (length (filter (claims_pixel (tile_size self) i j) (zip tiles ps)))
           \<and> (1 \<le> d ! i ! j \<longleftrightarrow> (\<exists>tp \<in> set (zip tiles ps). claims_pixel (tile_size self) i j tp))
           \<and> ((\<forall>tp \<in> set (zip tiles ps). \<not> claims_pixel (tile_size self) i j tp) \<longrightarrow> d ! i ! j = 0)"
proof -
  let ?d = "fold (overlaps_tile (tile_size self)) (zip tiles ps) (full H W 0)"
  let ?n = "length (filter (claims_pixel (tile_size self) i j) (zip tiles ps))"
  have d: "calculate_overlaps self tiles = Inr ?d"
    using assms(1,2) by (simp add: calculate_overlaps_def)
  have zero: "(0::int) \<le> full H W 0 ! i ! j"
    using assms(4,5) by (simp add: full_nth)
  from overlaps_fold_nth [OF assms(3) rect_full assms(4,5) zero]
  have r: "rect H W ?d" and v: "?d ! i ! j = int ?n"
    using assms(4,5) by (simp_all add: full_nth)
  have pos: "1 \<le> ?n \<longleftrightarrow> (\<exists>tp \<in> set (zip tiles ps). claims_pixel (tile_size self) i j tp)"
    by (simp add: Suc_le_eq filter_empty_conv)
  have none: "?n = 0" if "\<forall>tp \<in> set (zip tiles ps). \<not> claims_pixel (tile_size self) i j tp"
    using that by (simp add: filter_empty_conv)
  show ?thesis
    using d r v pos none by auto
qed

theorem overlap_density_counts_witness:
  "\<exists>d. calculate_overlaps small_state
          [[[1, 1, 1], [1, 1, 1], [1, 1, 1]], [[0, 0, 0], [0, 0, 0], [2, 2, 2]],
           [[3, 3, 3], [0, 0, 0], [0, 0, 0]], [[4, 0, 0], [0, 0, 0], [0, 0, 0]]] = Inr d
       \<and> d ! 2 ! 2 = 4 \<and> 1 \<le> d ! 2 ! 2"
  using overlap_density_counts [of small_state 5 5 "[(0, 0), (0, 2), (2, 0), (2, 2)]"
      "[[[1, 1, 1], [1, 1, 1], [1, 1, 1]], [[0, 0, 0], [0, 0, 0], [2, 2, 2]],
        [[3, 3, 3], [0, 0, 0], [0, 0, 0]], [[4, 0, 0], [0, 0, 0], [0, 0, 0]]]" 2 2]
  by (auto simp: small_state_def tiles_fit_def rect_def claims_pixel_def in_window_def)


section \<open>Label uniqueness after Confidence Reduction\<close>

lemma map2_map_same:
  "map2 f (map p xs) (map q xs) = map (\<lambda>x. f (p x) (q x)) xs"
  by (induction xs) auto

lemma fill_masked_map2d:
  "fill_masked (map2d P c) v (map2d g c) = map2d (\<lambda>x. if P x then v else g x) c"
  by (simp add: fill_masked_def zip_with2_def map2d_def map2_map_same)

lemma set_concat_map2d: "set (concat (map2d f a)) = f ` set (concat a)"
  by (auto simp: map2d_def)

lemma set_unique: "set (unique xs) = set xs"
  by (simp add: unique_def)

lemma distinct_unique: "distinct (unique xs)"
  by (simp add: unique_def)

lemma relabel_fold:
  "fold (\<lambda>(old_label, new_label) adjusted.
           fill_masked (map2d (\<lambda>v. v = old_label) c) new_label adjusted)
     (map (\<lambda>l. (l, wrap dt (l + M))) ls) (map2d g c)
   = map2d (\<lambda>x. if x \<in> set ls then wrap dt (x + M) else g x) c"
proof (induction ls arbitrary: g)
  case Nil
  then show ?case by simp
next
  case (Cons l ls)
  have "map2d (\<lambda>x. if x \<in> set ls then wrap dt (x + M)
                    else if x = l then wrap dt (l + M) else g x) c
        = map2d (\<lambda>x. if x \<in> set (l # ls) then wrap dt (x + M) else g x) c"
    by (simp add: map2d_def)
  then show ?case
    by (simp add: fill_masked_map2d Cons.IH)
qed

lemma high_confidence_tile_eq:
  "high_confidence_tile dt t M tile = (adj, M') \<Longrightarrow>
   \<exists>L. adj = map2d (\<lambda>x. if x \<noteq> 0 then wrap dt (x + M) else 0)
               (map2d (\<lambda>v. if v \<in> L then v else 0) tile)
     \<and> M' = (if \<exists>v \<in> set (concat (map2d (\<lambda>v. if v \<in> L then v else 0) tile)). v \<noteq> 0
             then raster_max adj else M)"
proof -
  assume h: "high_confidence_tile dt t M tile = (adj, M')"
  define L where "L = set (filter (\<lambda>l. l \<noteq> 0)
      (unique (concat (slice2 (t div 8) (t - t div 8) (t div 8) (t - t div 8) tile))))"
  define c where "c = map2d (\<lambda>v. if v \<in> L then v else 0) tile"
  define ls where "ls = filter (\<lambda>l. l \<noteq> 0) (unique (concat c))"
  have ls: "set ls = {v \<in> set (concat c). v \<noteq> 0}"
    by (auto simp: ls_def set_unique)
  have "map2d (\<lambda>x. if x \<in> set ls then wrap dt (x + M) else 0) c
        = map2d (\<lambda>x. if x \<noteq> 0 then wrap dt (x + M) else 0) c"
    unfolding map2d_def by (rule map_cong [OF refl], rule map_cong [OF refl]) (auto simp: ls)
  then have adj: "fold (\<lambda>(old_label, new_label) adjusted.
           fill_masked (map2d (\<lambda>v. v = old_label) c) new_label adjusted)
     (map (\<lambda>l. (l, wrap dt (l + M))) ls) (map2d (\<lambda>_. 0) c)
     = map2d (\<lambda>x. if x \<noteq> 0 then wrap dt (x + M) else 0) c"
    by (simp add: relabel_fold)
  have ne: "ls \<noteq> [] \<longleftrightarrow> (\<exists>v \<in> set (concat c). v \<noteq> 0)"
    using ls by (metis (mono_tags, lifting) empty_Collect_eq set_empty)
  from h adj ne show ?thesis
    unfolding high_confidence_tile_def Let_def L_def [symmetric] c_def [symmetric] ls_def [symmetric]
    by (intro exI [of _ L]) (auto simp: c_def)
qed

text \<open>Where the addition does not wrap, the ids of a confidence tile lie above the offset
  before the tile and at most at the offset after it.\<close>

lemma high_confidence_tile_bounds:
  assumes nn: "nonneg_labels tile" and M: "0 \<le> M" and fit: "fits_offset dt M tile"
    and h: "high_confidence_tile dt t M tile = (adj, M')"
  shows "M \<le> M' \<and> (\<forall>v \<in> instance_ids adj. M < v \<and> v \<le> M')"
proof -
  from high_confidence_tile_eq [OF h] obtain L where
    adj: "adj = map2d (\<lambda>x. if x \<noteq> 0 then wrap dt (x + M) else 0)
                  (map2d (\<lambda>v. if v \<in> L then v else 0) tile)"
    and M': "M' = (if \<exists>v \<in> set (concat (map2d (\<lambda>v. if v \<in> L then v else 0) tile)). v \<noteq> 0
                  then raster_max adj else M)"
    by blast
  let ?c = "map2d (\<lambda>v. if v \<in> L then v else 0) tile"
  have tile_nn: "0 \<le> v" if "v \<in> set (concat tile)" for v
    using nn that by (auto simp: nonneg_labels_def)
  have tile_fit: "wrap dt (v + M) = v + M" if "v \<in> set (concat tile)" for v
    using fit that by (auto simp: fits_offset_def)
  have c_tile: "x = 0 \<or> x \<in> set (concat tile)" if "x \<in> set (concat ?c)" for x
  proof -
    from that obtain v where "v \<in> set (concat tile)" "x = (if v \<in> L then v else 0)"
      unfolding set_concat_map2d by blast
    then show ?thesis by (simp split: if_splits)
  qed
  have c_nn: "0 \<le> x" if "x \<in> set (concat ?c)" for x
    using c_tile [OF that] tile_nn [of x] by auto
  have "set (concat adj) = (\<lambda>x. if x \<noteq> 0 then wrap dt (x + M) else 0) ` set (concat ?c)"
    unfolding adj by (rule set_concat_map2d)
  also have "\<dots> = (\<lambda>x. if x \<noteq> 0 then x + M else 0) ` set (concat ?c)"
  proof (rule image_cong [OF refl])
    fix x assume "x \<in> set (concat ?c)"
    from c_tile [OF this] tile_fit [of x]
    show "(if x \<noteq> 0 then wrap dt (x + M) else 0) = (if x \<noteq> 0 then x + M else 0)"
      by auto
  qed
  finally have adj_set:
    "set (concat adj) = (\<lambda>x. if x \<noteq> 0 then x + M else 0) ` set (concat ?c)" .
  have ids: "M < v \<and> (\<exists>x \<in> set (concat ?c). x \<noteq> 0)" if "v \<in> instance_ids adj" for v
  proof -
    from that have vin: "v \<in> set (concat adj)" and v0: "v \<noteq> 0"
      unfolding instance_ids_def by blast+
    from vin have "v \<in> (\<lambda>x. if x \<noteq> 0 then x + M else 0) ` set (concat ?c)"
      unfolding adj_set .
    with v0 obtain x where x: "x \<in> set (concat ?c)" "v = (if x \<noteq> 0 then x + M else 0)" "v \<noteq> 0"
      by blast
    then have "x \<noteq> 0" by (auto split: if_splits)
    with c_nn [OF x(1)] x show ?thesis by auto
  qed
  have le_max: "v \<le> raster_max adj" if "v \<in> set (concat adj)" for v
    unfolding raster_max_def using that by (intro Max_ge) auto
  have upper: "v \<le> M'" if "v \<in> instance_ids adj" for v
  proof -
    from ids [OF that] have "M' = raster_max adj" by (simp add: M')
    moreover from that have "v \<in> set (concat adj)" unfolding instance_ids_def by blast
    ultimately show ?thesis using le_max by simp
  qed
  have mono: "M \<le> M'"
  proof (cases "\<exists>x \<in> set (concat ?c). x \<noteq> 0")
    case True
    then obtain x where x: "x \<in> set (concat ?c)" "x \<noteq> 0" by blast
    then have "x + M \<in> set (concat adj)" unfolding adj_set by force
    then have "x + M \<le> raster_max adj" by (rule le_max)
    moreover have "0 \<le> x" using x(1) by (rule c_nn)
    ultimately show ?thesis using True by (simp add: M')
  next
    case False
    then show ?thesis by (simp add: M')
  qed
  from ids upper mono show ?thesis by blast
qed

lemma high_confidence_loop_length:
  "length (high_confidence_loop dt t M tps) = length tps"
  by (induction tps arbitrary: M) (auto split: prod.splits)

lemma high_confidence_loop_bounds:
  assumes "\<forall>tp \<in> set tps. nonneg_labels (fst tp)" and "0 \<le> M" and "no_overflow dt t M tps"
  shows "sorted (M # map snd (high_confidence_loop dt t M tps))
         \<and> (\<forall>k < length tps. \<forall>v \<in> instance_ids (fst (high_confidence_loop dt t M tps ! k)).
              (M # map snd (high_confidence_loop dt t M tps)) ! k < v
              \<and> v \<le> snd (high_confidence_loop dt t M tps ! k))"
  using assms
proof (induction tps arbitrary: M)
  case Nil
  then show ?case by simp
next
  case (Cons tp tps)
  obtain tile pos where tp: "tp = (tile, pos)" by (cases tp)
  obtain adj M' where step: "high_confidence_tile dt t M tile = (adj, M')"
    by (cases "high_confidence_tile dt t M tile")
  from Cons.prems have nn: "nonneg_labels tile" and rest: "\<forall>tp \<in> set tps. nonneg_labels (fst tp)"
    by (auto simp: tp)
  from Cons.prems(3) have fit: "fits_offset dt M tile" and no: "no_overflow dt t M' tps"
    by (simp_all add: tp step)
  from high_confidence_tile_bounds [OF nn Cons.prems(2) fit step]
  have b: "M \<le> M'" "\<forall>v \<in> instance_ids adj. M < v \<and> v \<le> M'" by auto
  then have M': "0 \<le> M'" using Cons.prems(2) by simp
  let ?rs = "high_confidence_loop dt t M' tps"
  from Cons.IH [OF rest M' no]
  have s: "sorted (M' # map snd ?rs)"
    and ih: "\<forall>k < length tps. \<forall>v \<in> instance_ids (fst (?rs ! k)).
              (M' # map snd ?rs) ! k < v \<and> v \<le> snd (?rs ! k)"
    by auto
  have loop: "high_confidence_loop dt t M (tp # tps) = (adj, M') # ?rs"
    by (simp add: tp step)
  have "sorted (M # M' # map snd ?rs)"
    using s b(1) by auto
  moreover have "\<forall>v \<in> instance_ids (fst (((adj, M') # ?rs) ! k)).
              (M # M' # map snd ?rs) ! k < v \<and> v \<le> snd (((adj, M') # ?rs) ! k)"
    if "k < length (tp # tps)" for k
  proof (cases k)
    case 0
    then show ?thesis using b(2) by simp
  next
    case (Suc k')
    with that have "k' < length tps" by simp
    with ih Suc show ?thesis by simp
  qed
  ultimately show ?case
    by (simp add: loop)
qed

lemma high_confidence_loop_disjoint:
  assumes "\<forall>tp \<in> set tps. nonneg_labels (fst tp)" and "0 \<le> M" and "no_overflow dt t M tps"
    and "i < j" and "j < length tps"
  shows "instance_ids (fst (high_confidence_loop dt t M tps ! i))
         \<inter> instance_ids (fst (high_confidence_loop dt t M tps ! j)) = {}"
proof -
  let ?rs = "high_confidence_loop dt t M tps"
  let ?ms = "M # map snd ?rs"
  from high_confidence_loop_bounds [OF assms(1,2,3)]
  have s: "sorted ?ms"
    and b: "\<And>k v. k < length tps \<Longrightarrow> v \<in> instance_ids (fst (?rs ! k))
              \<Longrightarrow> ?ms ! k < v \<and> v \<le> snd (?rs ! k)"
    by auto
  have len: "length ?rs = length tps" by (rule high_confidence_loop_length)
  have "v < w" if v: "v \<in> instance_ids (fst (?rs ! i))" and w: "w \<in> instance_ids (fst (?rs ! j))" for v w
  proof -
    from b [OF _ v] assms(4,5) have "v \<le> snd (?rs ! i)" by simp
    also have "snd (?rs ! i) = ?ms ! Suc i" using assms(4,5) len by simp
    also have "?ms ! Suc i \<le> ?ms ! j"
      using s assms(4,5) len by (intro sorted_nth_mono) auto
    also from b [OF assms(5) w] have "?ms ! j < w" by simp
    finally show ?thesis .
  qed
  then show ?thesis by fastforce
qed

text \<open>Label uniqueness and the monotone offset for runs whose additions stay inside the
  dtype of the tiles.\<close>

lemma confidence_labels_unique_without_overflow:
  assumes "positions self = Some ps"
    and "\<forall>tile \<in> set segmentation_tiles. nonneg_labels tile"
    and "no_overflow dt (tile_size self) 0 (zip segmentation_tiles ps)"
  shows "\<exists>conf. calculate_high_confidence_tiles self dt segmentation_tiles = Inr conf
           \<and> length conf = min (length segmentation_tiles) (length ps)
           \<and> (\<forall>i j. i < j \<and> j < length conf
                 \<longrightarrow> instance_ids (conf ! i) \<inter> instance_ids (conf ! j) = {})
           \<and> sorted (0 # map snd (high_confidence_loop dt (tile_size self) 0
                                    (zip segmentation_tiles ps)))"
proof -
  let ?tps = "zip segmentation_tiles ps"
  let ?rs = "high_confidence_loop dt (tile_size self) 0 ?tps"
  have nn: "\<forall>tp \<in> set ?tps. nonneg_labels (fst tp)"
    using assms(2) by (auto dest: set_zip_leftD)
  have len: "length ?rs = length ?tps"
    by (rule high_confidence_loop_length)
  have conf: "calculate_high_confidence_tiles self dt segmentation_tiles = Inr (map fst ?rs)"
    using assms(1) by (simp add: calculate_high_confidence_tiles_def)
  have disj: "instance_ids (map fst ?rs ! i) \<inter> instance_ids (map fst ?rs ! j) = {}"
    if "i < j" "j < length (map fst ?rs)" for i j
  proof -
    from that len have j: "j < length ?tps" by simp
    from high_confidence_loop_disjoint [OF nn _ assms(3) that(1) j]
    show ?thesis using that len by simp
  qed
  have "sorted (0 # map snd ?rs)"
    using high_confidence_loop_bounds [OF nn _ assms(3)] by simp
  with conf disj len show ?thesis
    by (intro exI [of _ "map fst ?rs"]) simp
qed

subsection \<open>Tiles of a narrow dtype\<close>

lemma wrap_uint8: "wrap (UInt 8) 300 = 44" "wrap (UInt 8) 44 = 44" "wrap (UInt 8) 200 = 200"
  by (simp_all add: wrap_def)

lemma hc_uint8_0:
  "high_confidence_tile (UInt 8) 3 0 [[44, 44, 0], [0, 200, 200], [0, 0, 0]]
   = ([[44, 44, 0], [0, 200, 200], [0, 0, 0]], 200)"
proof -
  let ?T = "[[44, 44, 0], [0, 200, 200], [0, 0, 0 :: int]]"
  have c: "map2d (\<lambda>v. if v \<in> set (filter (\<lambda>l. l \<noteq> 0)
              (unique (concat (slice2 (3 div 8) (3 - 3 div 8) (3 div 8) (3 - 3 div 8) ?T))))
            then v else 0) ?T = ?T"
    by (simp add: slice2_def unique_def map2d_def)
  have l: "filter (\<lambda>l. l \<noteq> 0) (unique (concat ?T)) = [44, 200]"
    by (simp add: unique_def)
  show ?thesis
    unfolding high_confidence_tile_def Let_def c l
    by (simp add: wrap_uint8 map2d_def fill_masked_def zip_with2_def raster_max_def)
qed

lemma hc_uint8_1:
  "high_confidence_tile (UInt 8) 3 200 [[100, 100, 100], [0, 0, 0], [0, 0, 0]]
   = ([[44, 44, 44], [0, 0, 0], [0, 0, 0]], 44)"
proof -
  let ?T = "[[100, 100, 100], [0, 0, 0], [0, 0, 0 :: int]]"
  have c: "map2d (\<lambda>v. if v \<in> set (filter (\<lambda>l. l \<noteq> 0)
              (unique (concat (slice2 (3 div 8) (3 - 3 div 8) (3 div 8) (3 - 3 div 8) ?T))))
            then v else 0) ?T = ?T"
    by (simp add: slice2_def unique_def map2d_def)
  have l: "filter (\<lambda>l. l \<noteq> 0) (unique (concat ?T)) = [100]"
    by (simp add: unique_def)
  show ?thesis
    unfolding high_confidence_tile_def Let_def c l
    by (simp add: wrap_uint8 map2d_def fill_masked_def zip_with2_def raster_max_def)
qed

text \<open>Claim C4 (no two confidence tiles share a non-zero id, and the running offset
  never decreases) on \<^verbatim>\<open>uint8\<close> label tiles, with the coordinator
  \<^verbatim>\<open>SegFlow(tile_size=3, stride=2)\<close> on a 2 by 2 image: the first tile holds the ids 44 and
  200 and leaves the offset at 200; the id 100 of the second tile becomes
  \<open>100 + 200 = 300\<close>, stored in \<^verbatim>\<open>uint8\<close> as 44. Both confidence tiles then hold the id 44,
  and the offset goes from 200 down to 44.\<close>

theorem confidence_labels_collide_uint8:
  "calculate_high_confidence_tiles small_state (UInt 8)
     [[[44, 44, 0], [0, 200, 200], [0, 0, 0]], [[100, 100, 100], [0, 0, 0], [0, 0, 0]]]
     = Inr [[[44, 44, 0], [0, 200, 200], [0, 0, 0]], [[44, 44, 44], [0, 0, 0], [0, 0, 0]]]
   \<and> map snd (high_confidence_loop (UInt 8) 3 0
        (zip [[[44, 44, 0], [0, 200, 200], [0, 0, 0]], [[100, 100, 100], [0, 0, 0], [0, 0, 0]]]
           [(0, 0), (0, 2), (2, 0), (2, 2)])) = [200, 44]
   \<and> 44 \<in> instance_ids [[44, 44, 0], [0, 200, 200], [0, 0, 0]]
   \<and> 44 \<in> instance_ids [[44, 44, 44], [0, 0, 0], [0, 0, 0]]
   \<and> wrap (UInt 8) (100 + 200) = 44"
  by (simp add: calculate_high_confidence_tiles_def small_fields hc_uint8_0 hc_uint8_1
      instance_ids_def wrap_def)


section \<open>Coverage scores\<close>

lemma filter_index_conv:
  "length xs = length ys \<Longrightarrow>
   map snd (filter fst (zip (map P xs) ys))
   = map (\<lambda>j. ys ! j) (filter (\<lambda>j. P (xs ! j)) [0..<length xs])"
proof (induction xs ys rule: list_induct2)
  case Nil
  then show ?case by simp
next
  case (Cons x xs y ys)
  have "[0..<Suc (length xs)] = 0 # map Suc [0..<length xs]"
    by (simp add: upt_conv_Cons map_Suc_upt del: upt_Suc)
  then show ?case
    using Cons.IH by (simp add: filter_map o_def del: upt_Suc)
qed

lemma map2_index_conv:
  "length xs = length ys \<Longrightarrow> map2 g xs ys = map (\<lambda>i. g (xs ! i) (ys ! i)) [0..<length xs]"
  by (rule nth_equalityI) simp_all

lemma select_masked_instance_density:
  assumes "rect h w tile" and "rect h w density"
  shows "select_masked (map2d (\<lambda>v. v = l) tile) density = instance_density tile density l"
proof -
  have len: "length tile = h" "length density = h"
    and rows: "\<And>i. i < h \<Longrightarrow> length (tile ! i) = w \<and> length (density ! i) = w"
    using assms by (auto simp: rect_def)
  have "select_masked (map2d (\<lambda>v. v = l) tile) density
        = concat (map (\<lambda>i. map snd (filter fst (zip (map2d (\<lambda>v. v = l) tile ! i) (density ! i))))
                    [0..<h])"
    using len by (simp add: select_masked_def map2d_def map2_index_conv)
  also have "\<dots> = concat (map (\<lambda>i. map (\<lambda>j. density ! i ! j)
                                 (filter (\<lambda>j. tile ! i ! j = l) [0..<length (tile ! i)]))
                          [0..<h])"
  proof (rule arg_cong [where f = concat], rule map_cong [OF refl])
    fix i assume "i \<in> set [0..<h]"
    then have i: "i < h" by simp
    then have "map2d (\<lambda>v. v = l) tile ! i = map (\<lambda>v. v = l) (tile ! i)"
      using len by (simp add: map2d_def)
    then show "map snd (filter fst (zip (map2d (\<lambda>v. v = l) tile ! i) (density ! i)))
               = map (\<lambda>j. density ! i ! j) (filter (\<lambda>j. tile ! i ! j = l) [0..<length (tile ! i)])"
      using rows [OF i] filter_index_conv [of "tile ! i" "density ! i" "\<lambda>v. v = l"] by simp
  qed
  also have "\<dots> = instance_density tile density l"
    by (simp add: instance_density_def instance_pixels_def map_concat o_def len)
  finally show ?thesis .
qed

lemma length_filter_index: "length (filter (\<lambda>j. P (xs ! j)) [0..<length xs]) = length (filter P xs)"
proof -
  have "filter P xs = filter P (map (\<lambda>j. xs ! j) [0..<length xs])"
    by (simp add: map_nth)
  also have "\<dots> = map (\<lambda>j. xs ! j) (filter (\<lambda>j. P (xs ! j)) [0..<length xs])"
    by (simp add: filter_map o_def)
  finally show ?thesis by simp
qed

lemma length_instance_pixels: "length (instance_pixels tile l) = count_list (concat tile) l"
proof -
  have "length (instance_pixels tile l)
        = sum_list (map (\<lambda>i. length (filter (\<lambda>v. v = l) (tile ! i))) [0..<length tile])"
    by (simp add: instance_pixels_def length_concat o_def
        length_filter_index [where P = "\<lambda>v. v = l"])
  also have "\<dots> = sum_list (map (\<lambda>row. length (filter (\<lambda>v. v = l) row)) (map (\<lambda>i. tile ! i) [0..<length tile]))"
    by (simp add: o_def)
  also have "\<dots> = sum_list (map (\<lambda>row. length (filter (\<lambda>v. v = l) row)) tile)"
    by (simp only: map_nth)
  also have "\<dots> = length (filter (\<lambda>v. v = l) (concat tile))"
    by (simp add: filter_concat length_concat o_def)
  also have "\<dots> = count_list (concat tile) l"
  proof -
    have "(\<lambda>x. x = l) = ((=) l)" by auto
    then show ?thesis by (simp add: count_list_eq_length_filter)
  qed
  finally show ?thesis .
qed

lemma num_pixels_count:
  "length (filter id (concat (map2d (\<lambda>v. v = l) tile))) = count_list (concat tile) l"
proof -
  have "filter id (concat (map2d (\<lambda>v. v = l) tile)) = filter id (map (\<lambda>v. v = l) (concat tile))"
    by (simp add: map2d_def map_concat)
  moreover have "(\<lambda>x. x = l) = ((=) l)" by auto
  ultimately show ?thesis
    by (simp add: filter_map o_def count_list_eq_length_filter)
qed

lemma coverage_fold:
  "map_of (fold (\<lambda>label coverage. if P label then AList.update label (g label) coverage else coverage)
             ls coverage0) k
   = (if k \<in> set ls \<and> P k then Some (g k) else map_of coverage0 k)"
  by (induction ls arbitrary: coverage0) (auto simp: update_conv')

lemma coverage_fold_distinct:
  "distinct (map fst coverage0) \<Longrightarrow>
   distinct (map fst (fold (\<lambda>label coverage. if P label then AList.update label (g label) coverage
                                                  else coverage) ls coverage0))"
  by (induction ls arbitrary: coverage0) (auto simp: distinct_update)

lemma tile_index_coverage_eq:
  assumes "rect h w tile" and "rect h w density"
  shows "tile_index_coverage w1 w2 mp tile density
         = fold (\<lambda>label coverage.
                   if mp \<le> int (count_list (concat tile) label)
                   then AList.update label
                          (w1 * (real_of_int (sum_list (instance_density tile density label))
                                 / real (length (instance_density tile density label)))
                           + w2 * real_of_int (sum_list (instance_density tile density label)))
                          coverage
                   else coverage)
             (filter (\<lambda>l. l \<noteq> 0) (unique (concat tile))) []"
  by (simp add: tile_index_coverage_def Let_def num_pixels_count
      select_masked_instance_density [OF assms] cong: if_cong)

text \<open>Claim C5: for a confidence tile and a density sub-raster of the same shape, the
  coverage dictionary of the tile has an entry for an id \<open>l\<close> exactly when \<open>l\<close> is a
  non-zero id of the tile whose pixel count is at least \<open>min_pixels\<close>; the entry is
  \<open>w_avg\<close> times the mean density over the pixels of \<open>l\<close> plus \<open>w_sum\<close> times their summed
  density; an id below the threshold has no entry. The keys are distinct, and the
  density values of an instance are as many as its pixels.
  \<^verbatim>\<open>_calculate_tile_overlaps\<close> applies this to every tile with the weights and the
  threshold stored in the coordinator.\<close>

theorem coverage_entries:
  assumes "rect h w tile" and "rect h w density"
  shows "map_of (tile_index_coverage w_avg w_sum min_pixels_v tile density) l
         = (if l \<in> instance_ids tile \<and> min_pixels_v \<le> int (count_list (concat tile) l)
            then Some (w_avg * (real_of_int (sum_list (instance_density tile density l))
                                / real (count_list (concat tile) l))
                       + w_sum * real_of_int (sum_list (instance_density tile density l)))
            else None)
         \<and> distinct (map fst (tile_index_coverage w_avg w_sum min_pixels_v tile density))
         \<and> length (instance_density tile density l) = count_list (concat tile) l"
proof -
  have len: "length (instance_density tile density l) = count_list (concat tile) l" for l
    by (simp add: instance_density_def length_instance_pixels)
  have keys: "l \<in> set (filter (\<lambda>l. l \<noteq> 0) (unique (concat tile))) \<longleftrightarrow> l \<in> instance_ids tile"
    by (auto simp: instance_ids_def set_unique)
  have d: "distinct (map fst (tile_index_coverage w_avg w_sum min_pixels_v tile density))"
    unfolding tile_index_coverage_eq [OF assms] by (rule coverage_fold_distinct) simp
  have m: "map_of (tile_index_coverage w_avg w_sum min_pixels_v tile density) l
         = (if l \<in> instance_ids tile \<and> min_pixels_v \<le> int (count_list (concat tile) l)
            then Some (w_avg * (real_of_int (sum_list (instance_density tile density l))
                                / real (count_list (concat tile) l))
                       + w_sum * real_of_int (sum_list (instance_density tile density l)))
            else None)"
    unfolding tile_index_coverage_eq [OF assms] coverage_fold keys by (simp add: len)
  from m d len show ?thesis by blast
qed


theorem coverage_entries_witness:
  "map_of (tile_index_coverage (7 / 10) (3 / 10) 2 [[1, 1, 0], [2, 1, 0]] [[1, 2, 1], [1, 1, 1]]) 1
     = Some (32 / 15)
   \<and> map_of (tile_index_coverage (7 / 10) (3 / 10) 2 [[1, 1, 0], [2, 1, 0]] [[1, 2, 1], [1, 1, 1]]) 2
     = None"
proof -
  have r: "rect 2 3 [[1, 1, 0], [2, 1, 0 :: int]]" "rect 2 3 [[1, 2, 1], [1, 1, 1 :: int]]"
    by (simp_all add: rect_def)
  have ids: "instance_ids [[1, 1, 0], [2, 1, 0]] = {1, 2}"
    by (auto simp: instance_ids_def)
  have dens: "instance_density [[1, 1, 0], [2, 1, 0]] [[1, 2, 1], [1, 1, 1]] 1 = [1, 2, 1]"
    by code_simp
  from coverage_entries [OF r, of "7 / 10" "3 / 10" 2 1]
    coverage_entries [OF r, of "7 / 10" "3 / 10" 2 2]
  show ?thesis
    by (simp add: ids dens)
qed

section \<open>Recombination\<close>

lemma rect_tile_score_fold:
  "rect h w tile \<Longrightarrow> rect h w m \<Longrightarrow>
   rect h w (fold (\<lambda>(label, score) tile_score_map.
             fill_masked (map2d (\<lambda>v. v = label) tile) score tile_score_map) cov m)"
  by (induction cov arbitrary: m) (auto simp: rect_fill_masked rect_map2d)

lemma rect_tile_score_map_of: "rect h w tile \<Longrightarrow> rect h w (tile_score_map_of tile cov)"
  by (simp add: tile_score_map_of_def rect_tile_score_fold rect_map2d)

lemma recombine_tile_fits:
  "mosaic_fits H W m \<Longrightarrow> mosaic_fits H W (recombine_tile t (tile, (y, x), cov) m)"
  by (simp add: mosaic_fits_def recombine_tile_def Let_def rect_store_region)

lemma recombine_tile_nth:
  fixes cov :: "(int \<times> real) list"
  assumes m: "mosaic_fits H W m" and tile: "rect t t tile" and fit: "y + t \<le> H" "x + t \<le> W"
    and ij: "i < H" "j < W"
  defines "tp \<equiv> (tile, (y, x), cov)"
  defines "ow \<equiv> covers t tp i j \<and> score_at m i j < tile_score_at tp i j \<and> 0 < tile_label_at tp i j"
  shows "label_at (recombine_tile t tp m) i j = (if ow then tile_label_at tp i j else label_at m i j)"
    and "score_at (recombine_tile t tp m) i j = (if ow then tile_score_at tp i j else score_at m i j)"
proof -
  let ?L = "full_segmentation_mask m" and ?S = "full_score_map m"
  let ?lr = "slice2 y (y + t) x (x + t) ?L" and ?sr = "slice2 y (y + t) x (x + t) ?S"
  let ?ts = "tile_score_map_of tile cov"
  let ?gt = "zip_with2 (\<lambda>ts fs. fs < ts) ?ts ?sr"
  let ?nz = "map2d (\<lambda>v. 0 < v) tile"
  let ?om = "overwrite_mask_of tile ?ts ?sr"
  have L: "rect H W ?L" and S: "rect H W ?S" using m by (simp_all add: mosaic_fits_def)
  have lr: "rect t t ?lr" using L fit by (rule rect_slice2)
  have sr: "rect t t ?sr" using S fit by (rule rect_slice2)
  have ts: "rect t t ?ts" using tile by (rule rect_tile_score_map_of)
  have gt: "rect t t ?gt" using ts sr by (rule rect_zip_with2)
  have nz: "rect t t ?nz" using tile by (rule rect_map2d)
  have om: "rect t t ?om" unfolding overwrite_mask_of_def using gt nz by (rule rect_zip_with2)
  have la: "rect t t (assign_masked ?om tile ?lr)" using om tile lr by (rule rect_assign_masked)
  have sa: "rect t t (assign_masked ?om ?ts ?sr)" using om ts sr by (rule rect_assign_masked)
  have resL: "full_segmentation_mask (recombine_tile t (tile, (y, x), cov) m)
              = store_region y x (assign_masked ?om tile ?lr) ?L"
    and resS: "full_score_map (recombine_tile t (tile, (y, x), cov) m)
              = store_region y x (assign_masked ?om ?ts ?sr) ?S"
    by (simp_all add: recombine_tile_def Let_def)
  have "label_at (recombine_tile t tp m) i j = (if ow then tile_label_at tp i j else label_at m i j)
    \<and> score_at (recombine_tile t tp m) i j = (if ow then tile_score_at tp i j else score_at m i j)"
  proof (cases "in_window t y x i j")
    case False
    have "store_region y x (assign_masked ?om tile ?lr) ?L ! i ! j = ?L ! i ! j"
      using L la ij False by (rule store_region_outside)
    moreover have "store_region y x (assign_masked ?om ?ts ?sr) ?S ! i ! j = ?S ! i ! j"
      using S sa ij False by (rule store_region_outside)
    moreover have "\<not> ow" using False by (simp add: ow_def covers_def tp_def)
    ultimately show ?thesis
      by (simp add: label_at_def score_at_def resL resS tp_def)
  next
    case True
    then have lt: "i - y < t" "j - x < t" by (auto simp: in_window_def)
    have tl: "length tile = t" "length (tile ! (i - y)) = t"
      using tile lt by (simp_all add: rect_def)
    have lrv: "?lr ! (i - y) ! (j - x) = ?L ! i ! j" using L fit True by (rule slice2_window)
    have srv: "?sr ! (i - y) ! (j - x) = ?S ! i ! j" using S fit True by (rule slice2_window)
    have gtv: "?gt ! (i - y) ! (j - x) \<longleftrightarrow> ?S ! i ! j < ?ts ! (i - y) ! (j - x)"
      using zip_with2_nth [OF ts sr lt, of "\<lambda>ts fs. fs < ts"] srv by simp
    have nzv: "?nz ! (i - y) ! (j - x) \<longleftrightarrow> 0 < tile ! (i - y) ! (j - x)"
      using lt tl by (simp add: map2d_nth)
    have omv: "?om ! (i - y) ! (j - x) \<longleftrightarrow> ow"
      unfolding overwrite_mask_of_def
      using zip_with2_nth [OF gt nz lt, of "(\<and>)"] gtv nzv True
      by (simp add: ow_def covers_def tp_def score_at_def tile_score_at_def tile_label_at_def)
    have "store_region y x (assign_masked ?om tile ?lr) ?L ! i ! j
          = assign_masked ?om tile ?lr ! (i - y) ! (j - x)"
      using L la ij True by (rule store_region_inside)
    also have "\<dots> = (if ow then tile ! (i - y) ! (j - x) else ?L ! i ! j)"
      using assign_masked_nth [OF om tile lr lt] omv lrv by simp
    finally have lab: "label_at (recombine_tile t tp m) i j
                  = (if ow then tile_label_at tp i j else label_at m i j)"
      by (simp add: label_at_def resL tile_label_at_def tp_def)
    have "store_region y x (assign_masked ?om ?ts ?sr) ?S ! i ! j
          = assign_masked ?om ?ts ?sr ! (i - y) ! (j - x)"
      using S sa ij True by (rule store_region_inside)
    also have "\<dots> = (if ow then ?ts ! (i - y) ! (j - x) else ?S ! i ! j)"
      using assign_masked_nth [OF om ts sr lt] omv srv by simp
    finally have "score_at (recombine_tile t tp m) i j
                  = (if ow then tile_score_at tp i j else score_at m i j)"
      by (simp add: score_at_def resS tile_score_at_def tp_def)
    with lab show ?thesis by simp
  qed
  then show "label_at (recombine_tile t tp m) i j
             = (if ow then tile_label_at tp i j else label_at m i j)"
    and "score_at (recombine_tile t tp m) i j
             = (if ow then tile_score_at tp i j else score_at m i j)"
    by simp_all
qed

lemma run_fits_nth:
  assumes "run_fits t H W tiles" and "k < length tiles" and "tiles ! k = (tile, (y, x), cov)"
  shows "rect t t tile \<and> y + t \<le> H \<and> x + t \<le> W"
proof -
  from assms(2,3) have "(tile, (y, x), cov) \<in> set tiles"
    by (metis nth_mem)
  then have "(tile, (y, x)) \<in> set (map (\<lambda>(tile, pos, index_coverage). (tile, pos)) tiles)"
    by force
  with assms(1) show ?thesis
    unfolding run_fits_def tiles_fit_def by blast
qed

lemma recombine_fits: "mosaic_fits H W m \<Longrightarrow> mosaic_fits H W (recombine t tiles m)"
  unfolding recombine_def
proof (induction tiles arbitrary: m)
  case Nil
  then show ?case by simp
next
  case (Cons tp tiles)
  obtain tile y x cov where "tp = (tile, (y, x), cov)" by (cases tp) auto
  with Cons show ?case by (simp add: recombine_tile_fits)
qed

lemma recombine_take_Suc:
  "k < length tiles \<Longrightarrow>
   recombine t (take (Suc k) tiles) m = recombine_tile t (tiles ! k) (recombine t (take k tiles) m)"
  by (simp add: recombine_def take_Suc_conv_app_nth)

lemma recombine_step_at:
  assumes "mosaic_fits H W m0" and "run_fits t H W tiles" and "k < length tiles"
    and "i < H" and "j < W"
  defines "before \<equiv> recombine t (take k tiles) m0"
  defines "after \<equiv> recombine t (take (Suc k) tiles) m0"
  defines "ow \<equiv> covers t (tiles ! k) i j \<and> score_at before i j < tile_score_at (tiles ! k) i j
                 \<and> 0 < tile_label_at (tiles ! k) i j"
  shows "label_at after i j = (if ow then tile_label_at (tiles ! k) i j else label_at before i j)
         \<and> score_at after i j = (if ow then tile_score_at (tiles ! k) i j else score_at before i j)"
proof -
  obtain tile y x cov where tp: "tiles ! k = (tile, (y, x), cov)"
    by (cases "tiles ! k") auto
  from run_fits_nth [OF assms(2,3) tp]
  have fit: "rect t t tile" "y + t \<le> H" "x + t \<le> W" by auto
  have b: "mosaic_fits H W before"
    unfolding before_def using assms(1) by (rule recombine_fits)
  have a: "after = recombine_tile t (tile, (y, x), cov) before"
    unfolding after_def before_def using assms(3) tp by (simp add: recombine_take_Suc)
  from recombine_tile_nth [OF b fit assms(4,5), of cov] show ?thesis
    unfolding a ow_def tp by simp
qed

lemma recombine_score_mono_step:
  assumes "mosaic_fits H W m0" and "run_fits t H W tiles" and "k < length tiles"
    and "i < H" and "j < W"
  shows "score_at (recombine t (take k tiles) m0) i j
         \<le> score_at (recombine t (take (Suc k) tiles) m0) i j"
  using recombine_step_at [OF assms] by (auto split: if_splits)

lemma recombine_score_mono:
  assumes "mosaic_fits H W m0" and "run_fits t H W tiles" and "a \<le> b" and "b \<le> length tiles"
    and "i < H" and "j < W"
  shows "score_at (recombine t (take a tiles) m0) i j
         \<le> score_at (recombine t (take b tiles) m0) i j"
  using assms(3,4)
proof (induction b rule: dec_induct)
  case base
  then show ?case by simp
next
  case (step n)
  then have n: "n < length tiles" by simp
  from recombine_score_mono_step [OF assms(1,2) n assms(5,6)] step show ?case
    by simp
qed

lemma recombine_score_after_claim:
  assumes "mosaic_fits H W m0" and "run_fits t H W tiles" and "k < length tiles"
    and "i < H" and "j < W"
    and "covers t (tiles ! k) i j" and "0 < tile_label_at (tiles ! k) i j"
  shows "tile_score_at (tiles ! k) i j \<le> score_at (recombine t (take (Suc k) tiles) m0) i j"
  using recombine_step_at [OF assms(1-5)] assms(6,7) by (auto split: if_splits)


subsection \<open>The example run, evaluated\<close>

text \<open>The stages of \<^verbatim>\<open>ingest_tile_segmentation\<close> on the example coordinator, for four input
  tiles filled with the tile-local id 1: the confidence tiles, the overlap density, the
  coverage dictionaries and the four recombination steps, each evaluated on its own.\<close>

lemma wrap_int32:
  "wrap (SInt 32) 1 = 1" "wrap (SInt 32) 2 = 2" "wrap (SInt 32) 3 = 3" "wrap (SInt 32) 4 = 4"
  by (simp_all add: wrap_def)

lemma all_ones_cleaned:
  "map2d (\<lambda>v. if v \<in> set (filter (\<lambda>l. l \<noteq> 0)
            (unique (concat (slice2 (3 div 8) (3 - 3 div 8) (3 div 8) (3 - 3 div 8)
               [[1, 1, 1], [1, 1, 1], [1, 1, 1]]))))
          then v else 0) [[1, 1, 1], [1, 1, 1], [1, 1, 1]]
   = [[1, 1, 1], [1, 1, 1], [1, 1, 1]]"
  by (simp add: slice2_def unique_def map2d_def)

lemma all_ones_labels:
  "filter (\<lambda>l. l \<noteq> 0) (unique (concat [[1, 1, 1], [1, 1, 1], [1, 1, 1]])) = [1]"
  by (simp add: unique_def)

lemma hc0: "high_confidence_tile (SInt 32) 3 0 [[1, 1, 1], [1, 1, 1], [1, 1, 1]]
   = ([[1, 1, 1], [1, 1, 1], [1, 1, 1]], 1)"
  unfolding high_confidence_tile_def Let_def all_ones_cleaned all_ones_labels
  by (simp add: wrap_int32 map2d_def fill_masked_def zip_with2_def raster_max_def)

lemma hc1: "high_confidence_tile (SInt 32) 3 1 [[1, 1, 1], [1, 1, 1], [1, 1, 1]]
   = ([[2, 2, 2], [2, 2, 2], [2, 2, 2]], 2)"
  unfolding high_confidence_tile_def Let_def all_ones_cleaned all_ones_labels
  by (simp add: wrap_int32 map2d_def fill_masked_def zip_with2_def raster_max_def)

lemma hc2: "high_confidence_tile (SInt 32) 3 2 [[1, 1, 1], [1, 1, 1], [1, 1, 1]]
   = ([[3, 3, 3], [3, 3, 3], [3, 3, 3]], 3)"
  unfolding high_confidence_tile_def Let_def all_ones_cleaned all_ones_labels
  by (simp add: wrap_int32 map2d_def fill_masked_def zip_with2_def raster_max_def)

lemma hc3: "high_confidence_tile (SInt 32) 3 3 [[1, 1, 1], [1, 1, 1], [1, 1, 1]]
   = ([[4, 4, 4], [4, 4, 4], [4, 4, 4]], 4)"
  unfolding high_confidence_tile_def Let_def all_ones_cleaned all_ones_labels
  by (simp add: wrap_int32 map2d_def fill_masked_def zip_with2_def raster_max_def)

lemma small_conf: "calculate_high_confidence_tiles small_state (SInt 32) [[[1, 1, 1], [1, 1, 1], [1, 1, 1]], [[1, 1, 1], [1, 1, 1], [1, 1, 1]], [[1, 1, 1], [1, 1, 1], [1, 1, 1]], [[1, 1, 1], [1, 1, 1], [1, 1, 1]]]
   = Inr [[[1, 1, 1], [1, 1, 1], [1, 1, 1]],
          [[2, 2, 2], [2, 2, 2], [2, 2, 2]],
          [[3, 3, 3], [3, 3, 3], [3, 3, 3]],
          [[4, 4, 4], [4, 4, 4], [4, 4, 4]]]"
  by (simp add: calculate_high_confidence_tiles_def small_state_def hc0 hc1 hc2 hc3)

lemma ov0: "overlaps_tile 3 ([[1, 1, 1], [1, 1, 1], [1, 1, 1]], (0, 0))
     [[0, 0, 0, 0, 0], [0, 0, 0, 0, 0], [0, 0, 0, 0, 0], [0, 0, 0, 0, 0], [0, 0, 0, 0, 0]]
   = [[1, 1, 1, 0, 0], [1, 1, 1, 0, 0], [1, 1, 1, 0, 0], [0, 0, 0, 0, 0], [0, 0, 0, 0, 0]]"
  by (simp add: overlaps_tile_def slice2_def map2d_def fill_masked_def zip_with2_def
      store_region_def Let_def)

lemma ov1: "overlaps_tile 3 ([[2, 2, 2], [2, 2, 2], [2, 2, 2]], (0, 2))
     [[1, 1, 1, 0, 0], [1, 1, 1, 0, 0], [1, 1, 1, 0, 0], [0, 0, 0, 0, 0], [0, 0, 0, 0, 0]]
   = [[1, 1, 2, 1, 1], [1, 1, 2, 1, 1], [1, 1, 2, 1, 1], [0, 0, 0, 0, 0], [0, 0, 0, 0, 0]]"
  by (simp add: overlaps_tile_def slice2_def map2d_def fill_masked_def zip_with2_def
      store_region_def Let_def)

lemma ov2: "overlaps_tile 3 ([[3, 3, 3], [3, 3, 3], [3, 3, 3]], (2, 0))
     [[1, 1, 2, 1, 1], [1, 1, 2, 1, 1], [1, 1, 2, 1, 1], [0, 0, 0, 0, 0], [0, 0, 0, 0, 0]]
   = [[1, 1, 2, 1, 1], [1, 1, 2, 1, 1], [2, 2, 3, 1, 1], [1, 1, 1, 0, 0], [1, 1, 1, 0, 0]]"
  by (simp add: overlaps_tile_def slice2_def map2d_def fill_masked_def zip_with2_def
      store_region_def Let_def)

lemma ov3: "overlaps_tile 3 ([[4, 4, 4], [4, 4, 4], [4, 4, 4]], (2, 2))
     [[1, 1, 2, 1, 1], [1, 1, 2, 1, 1], [2, 2, 3, 1, 1], [1, 1, 1, 0, 0], [1, 1, 1, 0, 0]]
   = [[1, 1, 2, 1, 1], [1, 1, 2, 1, 1], [2, 2, 4, 2, 2], [1, 1, 2, 1, 1], [1, 1, 2, 1, 1]]"
  by (simp add: overlaps_tile_def slice2_def map2d_def fill_masked_def zip_with2_def
      store_region_def Let_def)

lemma small_density: "calculate_overlaps small_state [[[1, 1, 1], [1, 1, 1], [1, 1, 1]], [[2, 2, 2], [2, 2, 2], [2, 2, 2]], [[3, 3, 3], [3, 3, 3], [3, 3, 3]], [[4, 4, 4], [4, 4, 4], [4, 4, 4]]]
   = Inr [[1, 1, 2, 1, 1], [1, 1, 2, 1, 1], [2, 2, 4, 2, 2], [1, 1, 2, 1, 1], [1, 1, 2, 1, 1]]"
  by (simp add: calculate_overlaps_def small_state_def full_5_5 ov0 ov1 ov2 ov3)

lemma cov0: "tile_index_coverage (7 / 10) (3 / 10) 5 [[1, 1, 1], [1, 1, 1], [1, 1, 1]] [[1, 1, 2], [1, 1, 2], [2, 2, 4]] = [(1, 272 / 45)]"
  by (simp add: tile_index_coverage_def unique_def map2d_def select_masked_def Let_def)

lemma cov1: "tile_index_coverage (7 / 10) (3 / 10) 5 [[2, 2, 2], [2, 2, 2], [2, 2, 2]] [[2, 1, 1], [2, 1, 1], [4, 2, 2]] = [(2, 272 / 45)]"
  by (simp add: tile_index_coverage_def unique_def map2d_def select_masked_def Let_def)

lemma cov2: "tile_index_coverage (7 / 10) (3 / 10) 5 [[3, 3, 3], [3, 3, 3], [3, 3, 3]] [[2, 2, 4], [1, 1, 2], [1, 1, 2]] = [(3, 272 / 45)]"
  by (simp add: tile_index_coverage_def unique_def map2d_def select_masked_def Let_def)

lemma cov3: "tile_index_coverage (7 / 10) (3 / 10) 5 [[4, 4, 4], [4, 4, 4], [4, 4, 4]] [[4, 2, 2], [2, 1, 1], [2, 1, 1]] = [(4, 272 / 45)]"
  by (simp add: tile_index_coverage_def unique_def map2d_def select_masked_def Let_def)

lemma small_tiles: "extract_tiles_of [[1, 1, 2, 1, 1], [1, 1, 2, 1, 1], [2, 2, 4, 2, 2], [1, 1, 2, 1, 1], [1, 1, 2, 1, 1]] 3 2
   = Inr ([[[1, 1, 2], [1, 1, 2], [2, 2, 4]], [[2, 1, 1], [2, 1, 1], [4, 2, 2]], [[2, 2, 4], [1, 1, 2], [1, 1, 2]], [[4, 2, 2], [2, 1, 1], [2, 1, 1]]], [(0, 0), (0, 2), (2, 0), (2, 2)])"
  by (simp add: extract_tiles_of_def tile_positions_def range0_def shape_def slice2_def upt_rec)

lemma small_cov: "calculate_tile_overlaps small_state [[1, 1, 2, 1, 1], [1, 1, 2, 1, 1], [2, 2, 4, 2, 2], [1, 1, 2, 1, 1], [1, 1, 2, 1, 1]]
     [[[1, 1, 1], [1, 1, 1], [1, 1, 1]], [[2, 2, 2], [2, 2, 2], [2, 2, 2]], [[3, 3, 3], [3, 3, 3], [3, 3, 3]], [[4, 4, 4], [4, 4, 4], [4, 4, 4]]]
   = Inr [[(1, 272 / 45)], [(2, 272 / 45)], [(3, 272 / 45)], [(4, 272 / 45)]]"
  by (simp add: calculate_tile_overlaps_def small_tiles small_state_def cov0 cov1 cov2 cov3)

lemma rc0: "recombine_tile 3 ([[1, 1, 1], [1, 1, 1], [1, 1, 1]], (0, 0), [(1, 272 / 45)])
     \<lparr> full_segmentation_mask = [[0, 0, 0, 0, 0], [0, 0, 0, 0, 0], [0, 0, 0, 0, 0], [0, 0, 0, 0, 0], [0, 0, 0, 0, 0]],
       full_score_map = [[0, 0, 0, 0, 0], [0, 0, 0, 0, 0], [0, 0, 0, 0, 0], [0, 0, 0, 0, 0], [0, 0, 0, 0, 0]],
       total_pixels_overwritten = 0 \<rparr>
   = \<lparr> full_segmentation_mask = [[1, 1, 1, 0, 0], [1, 1, 1, 0, 0], [1, 1, 1, 0, 0], [0, 0, 0, 0, 0], [0, 0, 0, 0, 0]],
       full_score_map = [[272 / 45, 272 / 45, 272 / 45, 0, 0], [272 / 45, 272 / 45, 272 / 45, 0, 0], [272 / 45, 272 / 45, 272 / 45, 0, 0], [0, 0, 0, 0, 0], [0, 0, 0, 0, 0]],
       total_pixels_overwritten = 0 \<rparr>"
  by (simp add: recombine_tile_def tile_score_map_of_def overwrite_mask_of_def slice2_def
      map2d_def fill_masked_def assign_masked_def zip_with2_def store_region_def Let_def)

lemma rc1: "recombine_tile 3 ([[2, 2, 2], [2, 2, 2], [2, 2, 2]], (0, 2), [(2, 272 / 45)])
     \<lparr> full_segmentation_mask = [[1, 1, 1, 0, 0], [1, 1, 1, 0, 0], [1, 1, 1, 0, 0], [0, 0, 0, 0, 0], [0, 0, 0, 0, 0]],
       full_score_map = [[272 / 45, 272 / 45, 272 / 45, 0, 0], [272 / 45, 272 / 45, 272 / 45, 0, 0], [272 / 45, 272 / 45, 272 / 45, 0, 0], [0, 0, 0, 0, 0], [0, 0, 0, 0, 0]],
       total_pixels_overwritten = 0 \<rparr>
   = \<lparr> full_segmentation_mask = [[1, 1, 1, 2, 2], [1, 1, 1, 2, 2], [1, 1, 1, 2, 2], [0, 0, 0, 0, 0], [0, 0, 0, 0, 0]],
       full_score_map = [[272 / 45, 272 / 45, 272 / 45, 272 / 45, 272 / 45], [272 / 45, 272 / 45, 272 / 45, 272 / 45, 272 / 45], [272 / 45, 272 / 45, 272 / 45, 272 / 45, 272 / 45], [0, 0, 0, 0, 0], [0, 0, 0, 0, 0]],
       total_pixels_overwritten = 0 \<rparr>"
  by (simp add: recombine_tile_def tile_score_map_of_def overwrite_mask_of_def slice2_def
      map2d_def fill_masked_def assign_masked_def zip_with2_def store_region_def Let_def)

lemma rc2: "recombine_tile 3 ([[3, 3, 3], [3, 3, 3], [3, 3, 3]], (2, 0), [(3, 272 / 45)])
     \<lparr> full_segmentation_mask = [[1, 1, 1, 2, 2], [1, 1, 1, 2, 2], [1, 1, 1, 2, 2], [0, 0, 0, 0, 0], [0, 0, 0, 0, 0]],
       full_score_map = [[272 / 45, 272 / 45, 272 / 45, 272 / 45, 272 / 45], [272 / 45, 272 / 45, 272 / 45, 272 / 45, 272 / 45], [272 / 45, 272 / 45, 272 / 45, 272 / 45, 272 / 45], [0, 0, 0, 0, 0], [0, 0, 0, 0, 0]],
       total_pixels_overwritten = 0 \<rparr>
   = \<lparr> full_segmentation_mask = [[1, 1, 1, 2, 2], [1, 1, 1, 2, 2], [1, 1, 1, 2, 2], [3, 3, 3, 0, 0], [3, 3, 3, 0, 0]],
       full_score_map = [[272 / 45, 272 / 45, 272 / 45, 272 / 45, 272 / 45], [272 / 45, 272 / 45, 272 / 45, 272 / 45, 272 / 45], [272 / 45, 272 / 45, 272 / 45, 272 / 45, 272 / 45], [272 / 45, 272 / 45, 272 / 45, 0, 0], [272 / 45, 272 / 45, 272 / 45, 0, 0]],
       total_pixels_overwritten = 0 \<rparr>"
  by (simp add: recombine_tile_def tile_score_map_of_def overwrite_mask_of_def slice2_def
      map2d_def fill_masked_def assign_masked_def zip_with2_def store_region_def Let_def)

lemma rc3: "recombine_tile 3 ([[4, 4, 4], [4, 4, 4], [4, 4, 4]], (2, 2), [(4, 272 / 45)])
     \<lparr> full_segmentation_mask = [[1, 1, 1, 2, 2], [1, 1, 1, 2, 2], [1, 1, 1, 2, 2], [3, 3, 3, 0, 0], [3, 3, 3, 0, 0]],
       full_score_map = [[272 / 45, 272 / 45, 272 / 45, 272 / 45, 272 / 45], [272 / 45, 272 / 45, 272 / 45, 272 / 45, 272 / 45], [272 / 45, 272 / 45, 272 / 45, 272 / 45, 272 / 45], [272 / 45, 272 / 45, 272 / 45, 0, 0], [272 / 45, 272 / 45, 272 / 45, 0, 0]],
       total_pixels_overwritten = 0 \<rparr>
   = \<lparr> full_segmentation_mask = [[1, 1, 1, 2, 2], [1, 1, 1, 2, 2], [1, 1, 1, 2, 2], [3, 3, 3, 4, 4], [3, 3, 3, 4, 4]],
       full_score_map = [[272 / 45, 272 / 45, 272 / 45, 272 / 45, 272 / 45], [272 / 45, 272 / 45, 272 / 45, 272 / 45, 272 / 45], [272 / 45, 272 / 45, 272 / 45, 272 / 45, 272 / 45], [272 / 45, 272 / 45, 272 / 45, 272 / 45, 272 / 45], [272 / 45, 272 / 45, 272 / 45, 272 / 45, 272 / 45]],
       total_pixels_overwritten = 0 \<rparr>"
  by (simp add: recombine_tile_def tile_score_map_of_def overwrite_mask_of_def slice2_def
      map2d_def fill_masked_def assign_masked_def zip_with2_def store_region_def Let_def)


lemma tie_run_pipeline:
  "zip [[[1, 1, 1], [1, 1, 1], [1, 1, 1]], [[2, 2, 2], [2, 2, 2], [2, 2, 2]],
        [[3, 3, 3], [3, 3, 3], [3, 3, 3]], [[4, 4, 4], [4, 4, 4], [4, 4, 4]]]
     (zip [(0, 0), (0, 2), (2, 0), (2, 2)]
        [[(1, 272 / 45)], [(2, 272 / 45)], [(3, 272 / 45)], [(4, 272 / 45)]])
   = tie_run"
  by (simp add: tie_run_def)

lemma small_mosaic:
  "full_segmentation_mask (recombine 3
     [([[1, 1, 1], [1, 1, 1], [1, 1, 1]], (0, 0), [(1, 272 / 45)]),
      ([[2, 2, 2], [2, 2, 2], [2, 2, 2]], (0, 2), [(2, 272 / 45)]),
      ([[3, 3, 3], [3, 3, 3], [3, 3, 3]], (2, 0), [(3, 272 / 45)]),
      ([[4, 4, 4], [4, 4, 4], [4, 4, 4]], (2, 2), [(4, 272 / 45)])]
     (unclaimed 5 5))
   = [[1, 1, 1, 2, 2], [1, 1, 1, 2, 2], [1, 1, 1, 2, 2], [3, 3, 3, 4, 4], [3, 3, 3, 4, 4]]"
  by (simp add: recombine_def unclaimed_def full_5_5 rc0 rc1 rc2 rc3)

lemma small_crop:
  "crop_padded small_state [[1, 1, 1, 2, 2], [1, 1, 1, 2, 2], [1, 1, 1, 2, 2], [3, 3, 3, 4, 4], [3, 3, 3, 4, 4]] = Inr [[1, 1], [1, 1]]"
  by (simp add: crop_padded_def small_state_def py_slice_def py_index_def)

lemma unclaimed_fits: "mosaic_fits H W (unclaimed H W)"
  by (simp add: mosaic_fits_def unclaimed_def rect_full)

lemma tie_run_run_fits: "run_fits 3 5 5 tie_run"
  by (simp add: run_fits_def tiles_fit_def tie_run_def rect_def)

lemmas tie_run_fits = unclaimed_fits [of 5 5] tie_run_run_fits


subsection \<open>Ties\<close>

text \<open>Claim C2: in a run of the Recombiner from any mosaic of the padded shape, over
  tiles that fit, the step of tile \<open>k\<close> leaves label and score of a pixel unchanged when
  the tile's broadcast score there equals the recorded score; label or score of a pixel
  change only if the tile covers the pixel, its score there is strictly greater than the
  recorded one and its label there is positive, and in that case the pixel takes the
  tile's label and score.\<close>

theorem recombine_overwrites_only_strictly_greater:
  assumes "mosaic_fits H W m0" and "run_fits t H W tiles" and "k < length tiles"
    and "i < H" and "j < W"
  shows "(tile_score_at (tiles ! k) i j = score_at (recombine t (take k tiles) m0) i j
          \<longrightarrow> label_at (recombine t (take (Suc k) tiles) m0) i j
                = label_at (recombine t (take k tiles) m0) i j
              \<and> score_at (recombine t (take (Suc k) tiles) m0) i j
                = score_at (recombine t (take k tiles) m0) i j)
       \<and> (label_at (recombine t (take (Suc k) tiles) m0) i j
            \<noteq> label_at (recombine t (take k tiles) m0) i j
          \<or> score_at (recombine t (take (Suc k) tiles) m0) i j
            \<noteq> score_at (recombine t (take k tiles) m0) i j
          \<longrightarrow> covers t (tiles ! k) i j
              \<and> score_at (recombine t (take k tiles) m0) i j < tile_score_at (tiles ! k) i j
              \<and> 0 < tile_label_at (tiles ! k) i j)
       \<and> (covers t (tiles ! k) i j
          \<and> score_at (recombine t (take k tiles) m0) i j < tile_score_at (tiles ! k) i j
          \<and> 0 < tile_label_at (tiles ! k) i j
          \<longrightarrow> label_at (recombine t (take (Suc k) tiles) m0) i j = tile_label_at (tiles ! k) i j
              \<and> score_at (recombine t (take (Suc k) tiles) m0) i j = tile_score_at (tiles ! k) i j)"
  using recombine_step_at [OF assms] by (auto split: if_splits)

theorem recombine_overwrites_only_strictly_greater_witness:
  "tile_score_at (tie_run ! 1) 2 2 = score_at (recombine 3 (take 1 tie_run) (unclaimed 5 5)) 2 2
   \<and> label_at (recombine 3 (take (Suc 1) tie_run) (unclaimed 5 5)) 2 2
     = label_at (recombine 3 (take 1 tie_run) (unclaimed 5 5)) 2 2"
proof -
  have eq: "tile_score_at (tie_run ! 1) 2 2
            = score_at (recombine 3 (take 1 tie_run) (unclaimed 5 5)) 2 2"
    by (simp add: tie_run_def tile_score_at_def score_at_def recombine_def unclaimed_def
        full_5_5 rc0 tile_score_map_of_def map2d_def fill_masked_def zip_with2_def)
  from recombine_overwrites_only_strictly_greater [OF tie_run_fits, of 1 2 2] eq
  show ?thesis by (simp add: tie_run_def)
qed

text \<open>Claim C3 says that the later of two tiles with equal scores overwrites the earlier
  one's label. On the coordinator \<^verbatim>\<open>SegFlow(tile_size=3, stride=2)\<close> with a 2 by 2 image and
  four \<^verbatim>\<open>int32\<close> tiles filled with one instance each, the four instances get the ids 1 to
  4 and the same score \<open>272 / 45\<close>; the first and the last tile both claim the padded pixel
  \<open>(2, 2)\<close>, and after the run that pixel holds the id 1 of the first tile: the result of
  \<^verbatim>\<open>ingest_tile_segmentation\<close> is filled with 1.\<close>

theorem ingest_tie_keeps_earlier_label:
  "calculate_high_confidence_tiles small_state (SInt 32) [[[1, 1, 1], [1, 1, 1], [1, 1, 1]], [[1, 1, 1], [1, 1, 1], [1, 1, 1]], [[1, 1, 1], [1, 1, 1], [1, 1, 1]], [[1, 1, 1], [1, 1, 1], [1, 1, 1]]]
     = Inr [[[1, 1, 1], [1, 1, 1], [1, 1, 1]], [[2, 2, 2], [2, 2, 2], [2, 2, 2]], [[3, 3, 3], [3, 3, 3], [3, 3, 3]], [[4, 4, 4], [4, 4, 4], [4, 4, 4]]]
   \<and> calculate_tile_overlaps small_state [[1, 1, 2, 1, 1], [1, 1, 2, 1, 1], [2, 2, 4, 2, 2], [1, 1, 2, 1, 1], [1, 1, 2, 1, 1]] [[[1, 1, 1], [1, 1, 1], [1, 1, 1]], [[2, 2, 2], [2, 2, 2], [2, 2, 2]], [[3, 3, 3], [3, 3, 3], [3, 3, 3]], [[4, 4, 4], [4, 4, 4], [4, 4, 4]]]
     = Inr [[(1, 272 / 45)], [(2, 272 / 45)], [(3, 272 / 45)], [(4, 272 / 45)]]
   \<and> claims_pixel 3 2 2 ([[1, 1, 1], [1, 1, 1], [1, 1, 1]], (0, 0))
   \<and> claims_pixel 3 2 2 ([[4, 4, 4], [4, 4, 4], [4, 4, 4]], (2, 2))
   \<and> full_segmentation_mask (recombine 3
        [([[1, 1, 1], [1, 1, 1], [1, 1, 1]], (0, 0), [(1, 272 / 45)]),
      ([[2, 2, 2], [2, 2, 2], [2, 2, 2]], (0, 2), [(2, 272 / 45)]),
      ([[3, 3, 3], [3, 3, 3], [3, 3, 3]], (2, 0), [(3, 272 / 45)]),
      ([[4, 4, 4], [4, 4, 4], [4, 4, 4]], (2, 2), [(4, 272 / 45)])]
        (unclaimed 5 5)) ! 2 ! 2 = 1
   \<and> ingest_tile_segmentation small_state (SInt 32) [[[1, 1, 1], [1, 1, 1], [1, 1, 1]], [[1, 1, 1], [1, 1, 1], [1, 1, 1]], [[1, 1, 1], [1, 1, 1], [1, 1, 1]], [[1, 1, 1], [1, 1, 1], [1, 1, 1]]] = Inr [[1, 1], [1, 1]]"
  by (simp add: ingest_tile_segmentation_def small_conf small_density small_cov small_mosaic
      small_crop small_fields claims_pixel_def in_window_def)

text \<open>Claim C3 as amended: when two tiles of a run both claim a pixel with equal broadcast
  scores, the step of the later tile leaves label and score of that pixel unchanged: the
  score recorded before it is already at least the tied score.\<close>

theorem recombine_later_tile_loses_tie:
  assumes "mosaic_fits H W m0" and "run_fits t H W tiles"
    and "k1 < k2" and "k2 < length tiles" and "i < H" and "j < W"
    and "covers t (tiles ! k1) i j" and "0 < tile_label_at (tiles ! k1) i j"
    and "covers t (tiles ! k2) i j" and "0 < tile_label_at (tiles ! k2) i j"
    and "tile_score_at (tiles ! k1) i j = tile_score_at (tiles ! k2) i j"
  shows "label_at (recombine t (take (Suc k2) tiles) m0) i j
         = label_at (recombine t (take k2 tiles) m0) i j
       \<and> score_at (recombine t (take (Suc k2) tiles) m0) i j
         = score_at (recombine t (take k2 tiles) m0) i j
       \<and> tile_score_at (tiles ! k2) i j \<le> score_at (recombine t (take k2 tiles) m0) i j"
proof -
  from assms(3,4) have k1: "k1 < length tiles" and le: "Suc k1 \<le> k2" "k2 \<le> length tiles"
    by auto
  have "tile_score_at (tiles ! k1) i j \<le> score_at (recombine t (take (Suc k1) tiles) m0) i j"
    using assms(1,2) k1 assms(5,6,7,8) by (rule recombine_score_after_claim)
  also have "\<dots> \<le> score_at (recombine t (take k2 tiles) m0) i j"
    using assms(1,2) le assms(5,6) by (rule recombine_score_mono)
  finally have ge: "tile_score_at (tiles ! k2) i j \<le> score_at (recombine t (take k2 tiles) m0) i j"
    using assms(11) by simp
  from recombine_step_at [OF assms(1,2,4,5,6)] ge show ?thesis
    by (auto split: if_splits)
qed

theorem recombine_later_tile_loses_tie_witness:
  "covers 3 (tie_run ! 0) 2 2 \<and> covers 3 (tie_run ! 3) 2 2
   \<and> tile_score_at (tie_run ! 0) 2 2 = tile_score_at (tie_run ! 3) 2 2
   \<and> label_at (recombine 3 (take (Suc 3) tie_run) (unclaimed 5 5)) 2 2
     = label_at (recombine 3 (take 3 tie_run) (unclaimed 5 5)) 2 2"
proof -
  have c: "covers 3 (tie_run ! 0) 2 2" "covers 3 (tie_run ! 3) 2 2"
    by (simp_all add: tie_run_def covers_def in_window_def)
  have l: "0 < tile_label_at (tie_run ! 0) 2 2" "0 < tile_label_at (tie_run ! 3) 2 2"
    by (simp_all add: tie_run_def tile_label_at_def)
  have s: "tile_score_at (tie_run ! 0) 2 2 = tile_score_at (tie_run ! 3) 2 2"
    by (simp add: tie_run_def tile_score_at_def tile_score_map_of_def map2d_def
        fill_masked_def zip_with2_def)
  have k: "(0::nat) < 3" "3 < length tie_run" "(2::nat) < 5"
    by (simp_all add: tie_run_def)
  from recombine_later_tile_loses_tie [OF tie_run_fits k(1,2,3,3) c(1) l(1) c(2) l(2) s] c s
  show ?thesis by simp
qed


section \<open>Configuration of the scorer\<close>

text \<open>Claim C1 (the scorer uses the caller's weights and threshold) against the
  constructor: constructed with \<^verbatim>\<open>average_weight = 0.5\<close>, \<^verbatim>\<open>sum_weight = 0.5\<close> and
  \<^verbatim>\<open>min_pixels = 10\<close>, the coordinator holds \<open>0.7\<close>, \<open>0.3\<close> and \<open>5\<close>, as it does for every
  other choice of the three arguments. The scorer then gives a 9-pixel instance, which
  is below the caller's threshold of 10, the entry \<open>0.7 * (16 / 9) + 0.3 * 16 = 272 / 45\<close>;
  with the caller's weights the score would be \<open>0.5 * (16 / 9) + 0.5 * 16 = 80 / 9\<close>.\<close>

theorem init_ignores_scoring_arguments:
  "average_weight (init 512 256 (1 / 2) (1 / 2) 10) = 7 / 10
   \<and> sum_weight (init 512 256 (1 / 2) (1 / 2) 10) = 3 / 10
   \<and> min_pixels (init 512 256 (1 / 2) (1 / 2) 10) = 5
   \<and> average_weight (init 512 256 (1 / 2) (1 / 2) 10) \<noteq> 1 / 2
   \<and> sum_weight (init 512 256 (1 / 2) (1 / 2) 10) \<noteq> 1 / 2
   \<and> min_pixels (init 512 256 (1 / 2) (1 / 2) 10) \<noteq> 10
   \<and> init 512 256 (1 / 2) (1 / 2) 10 = init 512 256 (7 / 10) (3 / 10) 5
   \<and> tile_index_coverage (average_weight (init 3 2 (1 / 2) (1 / 2) 10))
         (sum_weight (init 3 2 (1 / 2) (1 / 2) 10)) (min_pixels (init 3 2 (1 / 2) (1 / 2) 10))
         [[1, 1, 1], [1, 1, 1], [1, 1, 1]] [[1, 1, 2], [1, 1, 2], [2, 2, 4]]
       = [(1, 272 / 45)]"
  by (simp add: init_def cov0)


section \<open>Blending of continuous tiles\<close>

lemma length_hanning: "length (hanning M) = M"
  by (simp add: hanning_def)

lemma rect_weighting_window:
  assumes "weighting_window t = Inr window"
  shows "rect t t window"
proof -
  from assms have "window = map2d (\<lambda>v. v / raster_max (map (\<lambda>a. map (\<lambda>b. a * b) (hanning t)) (hanning t)))
      (map (\<lambda>a. map (\<lambda>b. a * b) (hanning t)) (hanning t))"
    by (simp add: weighting_window_def Let_def split: if_splits)
  moreover have "rect t t (map (\<lambda>a. map (\<lambda>b. a * b) (hanning t)) (hanning t))"
    by (simp add: rect_def length_hanning)
  ultimately show ?thesis
    by (simp add: rect_map2d)
qed

lemma blend_tile_nth:
  assumes r: "rect H W recon" and wm: "rect H W weight" and tile: "rect t t tile"
    and win: "rect t t window" and fit: "y + t \<le> H" "x + t \<le> W" and ij: "i < H" "j < W"
  shows "rect H W (fst (blend_tile t window (tile, (y, x)) (recon, weight)))
       \<and> rect H W (snd (blend_tile t window (tile, (y, x)) (recon, weight)))
       \<and> fst (blend_tile t window (tile, (y, x)) (recon, weight)) ! i ! j
         = recon ! i ! j + (if in_window t y x i j
                            then tile ! (i - y) ! (j - x) * window ! (i - y) ! (j - x) else 0)
       \<and> snd (blend_tile t window (tile, (y, x)) (recon, weight)) ! i ! j
         = weight ! i ! j + (if in_window t y x i j then window ! (i - y) ! (j - x) else 0)"
proof -
  let ?rr = "slice2 y (y + t) x (x + t) recon" and ?wr = "slice2 y (y + t) x (x + t) weight"
  let ?tw = "zip_with2 (*) tile window"
  let ?r1 = "zip_with2 (+) ?rr ?tw" and ?w1 = "zip_with2 (+) ?wr window"
  have rr: "rect t t ?rr" using r fit by (rule rect_slice2)
  have wr: "rect t t ?wr" using wm fit by (rule rect_slice2)
  have tw: "rect t t ?tw" using tile win by (rule rect_zip_with2)
  have r1: "rect t t ?r1" using rr tw by (rule rect_zip_with2)
  have w1: "rect t t ?w1" using wr win by (rule rect_zip_with2)
  have res: "blend_tile t window (tile, (y, x)) (recon, weight)
             = (store_region y x ?r1 recon, store_region y x ?w1 weight)"
    by (simp add: blend_tile_def Let_def)
  have shapes: "rect H W (store_region y x ?r1 recon)" "rect H W (store_region y x ?w1 weight)"
    using r wm by (simp_all add: rect_store_region)
  have vals: "store_region y x ?r1 recon ! i ! j
         = recon ! i ! j + (if in_window t y x i j
                            then tile ! (i - y) ! (j - x) * window ! (i - y) ! (j - x) else 0)
       \<and> store_region y x ?w1 weight ! i ! j
         = weight ! i ! j + (if in_window t y x i j then window ! (i - y) ! (j - x) else 0)"
  proof (cases "in_window t y x i j")
    case False
    have "store_region y x ?r1 recon ! i ! j = recon ! i ! j"
      using r r1 ij False by (rule store_region_outside)
    moreover have "store_region y x ?w1 weight ! i ! j = weight ! i ! j"
      using wm w1 ij False by (rule store_region_outside)
    ultimately show ?thesis using False by simp
  next
    case True
    then have lt: "i - y < t" "j - x < t" by (auto simp: in_window_def)
    have rrv: "?rr ! (i - y) ! (j - x) = recon ! i ! j" using r fit True by (rule slice2_window)
    have wrv: "?wr ! (i - y) ! (j - x) = weight ! i ! j" using wm fit True by (rule slice2_window)
    have twv: "?tw ! (i - y) ! (j - x) = tile ! (i - y) ! (j - x) * window ! (i - y) ! (j - x)"
      using zip_with2_nth [OF tile win lt, of "(*)"] by simp
    have "store_region y x ?r1 recon ! i ! j = ?r1 ! (i - y) ! (j - x)"
      using r r1 ij True by (rule store_region_inside)
    also have "\<dots> = recon ! i ! j + tile ! (i - y) ! (j - x) * window ! (i - y) ! (j - x)"
      using zip_with2_nth [OF rr tw lt, of "(+)"] rrv twv by simp
    finally have a: "store_region y x ?r1 recon ! i ! j
        = recon ! i ! j + tile ! (i - y) ! (j - x) * window ! (i - y) ! (j - x)" .
    have "store_region y x ?w1 weight ! i ! j = ?w1 ! (i - y) ! (j - x)"
      using wm w1 ij True by (rule store_region_inside)
    also have "\<dots> = weight ! i ! j + window ! (i - y) ! (j - x)"
      using zip_with2_nth [OF wr win lt, of "(+)"] wrv by simp
    finally show ?thesis using a True by simp
  qed
  from shapes vals show ?thesis by (simp add: res)
qed

lemma constant_tile_nth:
  assumes "constant_tile c tile" and "rect t t tile" and "a < t" and "b < t"
  shows "tile ! a ! b = c"
proof -
  from assms(2,3) have row: "tile ! a \<in> set tile" and len: "length (tile ! a) = t"
    by (simp_all add: rect_def)
  with assms(4) have "tile ! a ! b \<in> set (tile ! a)" by simp
  with assms(1) row show ?thesis unfolding constant_tile_def by blast
qed

lemma blend_fold_constant:
  assumes "tiles_fit t H W tps" and "\<forall>tp \<in> set tps. constant_tile c (fst tp)"
    and "rect t t window" and "rect H W recon" and "rect H W weight"
    and "i < H" and "j < W"
  shows "rect H W (fst (fold (blend_tile t window) tps (recon, weight)))
       \<and> rect H W (snd (fold (blend_tile t window) tps (recon, weight)))
       \<and> fst (fold (blend_tile t window) tps (recon, weight)) ! i ! j
         = recon ! i ! j + c * pixel_weight t window tps i j
       \<and> snd (fold (blend_tile t window) tps (recon, weight)) ! i ! j
         = weight ! i ! j + pixel_weight t window tps i j"
  using assms(1,2,4,5)
proof (induction tps arbitrary: recon weight)
  case Nil
  then show ?case by (simp add: pixel_weight_def)
next
  case (Cons tp tps)
  obtain tile y x where tp: "tp = (tile, (y, x))" by (cases tp) auto
  from Cons.prems(1) have fit: "rect t t tile" "y + t \<le> H" "x + t \<le> W"
    and rest: "tiles_fit t H W tps"
    by (auto simp: tiles_fit_def tp)
  from Cons.prems(2) have ct: "constant_tile c tile" and crest: "\<forall>tp \<in> set tps. constant_tile c (fst tp)"
    by (auto simp: tp)
  obtain recon' weight' where step: "blend_tile t window (tile, (y, x)) (recon, weight) = (recon', weight')"
    by (cases "blend_tile t window (tile, (y, x)) (recon, weight)")
  from blend_tile_nth [OF Cons.prems(3,4) fit(1) assms(3) fit(2,3) assms(6,7)] step
  have s: "rect H W recon'" "rect H W weight'"
    "recon' ! i ! j = recon ! i ! j + (if in_window t y x i j
                            then tile ! (i - y) ! (j - x) * window ! (i - y) ! (j - x) else 0)"
    "weight' ! i ! j = weight ! i ! j + (if in_window t y x i j then window ! (i - y) ! (j - x) else 0)"
    by simp_all
  have tv: "tile ! (i - y) ! (j - x) = c" if "in_window t y x i j"
    using that ct fit(1) by (intro constant_tile_nth [of c tile t]) (auto simp: in_window_def)
  from Cons.IH [OF rest crest s(1,2)] s(3,4) tv show ?case
    by (simp add: tp step pixel_weight_def algebra_simps)
qed


subsection \<open>The example coordinator with constant tiles, evaluated\<close>

text \<open>The window of a 3 by 3 tile and the four accumulation steps of
  \<^verbatim>\<open>combine_continuous_tiles\<close> on the example coordinator, for tiles that are constant 1.\<close>

lemma hanning_3: "hanning 3 = [0, 1, 0]"
  by (simp add: hanning_def upt_rec)

lemma window_3: "weighting_window 3 = Inr [[0, 0, 0], [0, 1, 0], [0, 0, 0]]"
  by (auto simp: weighting_window_def hanning_3 raster_max_def map2d_def Let_def)

lemma bl0: "blend_tile 3 [[0, 0, 0], [0, 1, 0], [0, 0, 0]] ([[1, 1, 1], [1, 1, 1], [1, 1, 1]], (0, 0))
     ([[0, 0, 0, 0, 0], [0, 0, 0, 0, 0], [0, 0, 0, 0, 0], [0, 0, 0, 0, 0], [0, 0, 0, 0, 0]],
      [[0, 0, 0, 0, 0], [0, 0, 0, 0, 0], [0, 0, 0, 0, 0], [0, 0, 0, 0, 0], [0, 0, 0, 0, 0]])
   = ([[0, 0, 0, 0, 0], [0, 1, 0, 0, 0], [0, 0, 0, 0, 0], [0, 0, 0, 0, 0], [0, 0, 0, 0, 0]],
      [[0, 0, 0, 0, 0], [0, 1, 0, 0, 0], [0, 0, 0, 0, 0], [0, 0, 0, 0, 0], [0, 0, 0, 0, 0]])"
  by (simp add: blend_tile_def slice2_def zip_with2_def store_region_def Let_def)

lemma bl1: "blend_tile 3 [[0, 0, 0], [0, 1, 0], [0, 0, 0]] ([[1, 1, 1], [1, 1, 1], [1, 1, 1]], (0, 2))
     ([[0, 0, 0, 0, 0], [0, 1, 0, 0, 0], [0, 0, 0, 0, 0], [0, 0, 0, 0, 0], [0, 0, 0, 0, 0]],
      [[0, 0, 0, 0, 0], [0, 1, 0, 0, 0], [0, 0, 0, 0, 0], [0, 0, 0, 0, 0], [0, 0, 0, 0, 0]])
   = ([[0, 0, 0, 0, 0], [0, 1, 0, 1, 0], [0, 0, 0, 0, 0], [0, 0, 0, 0, 0], [0, 0, 0, 0, 0]],
      [[0, 0, 0, 0, 0], [0, 1, 0, 1, 0], [0, 0, 0, 0, 0], [0, 0, 0, 0, 0], [0, 0, 0, 0, 0]])"
  by (simp add: blend_tile_def slice2_def zip_with2_def store_region_def Let_def)

lemma bl2: "blend_tile 3 [[0, 0, 0], [0, 1, 0], [0, 0, 0]] ([[1, 1, 1], [1, 1, 1], [1, 1, 1]], (2, 0))
     ([[0, 0, 0, 0, 0], [0, 1, 0, 1, 0], [0, 0, 0, 0, 0], [0, 0, 0, 0, 0], [0, 0, 0, 0, 0]],
      [[0, 0, 0, 0, 0], [0, 1, 0, 1, 0], [0, 0, 0, 0, 0], [0, 0, 0, 0, 0], [0, 0, 0, 0, 0]])
   = ([[0, 0, 0, 0, 0], [0, 1, 0, 1, 0], [0, 0, 0, 0, 0], [0, 1, 0, 0, 0], [0, 0, 0, 0, 0]],
      [[0, 0, 0, 0, 0], [0, 1, 0, 1, 0], [0, 0, 0, 0, 0], [0, 1, 0, 0, 0], [0, 0, 0, 0, 0]])"
  by (simp add: blend_tile_def slice2_def zip_with2_def store_region_def Let_def)

lemma bl3: "blend_tile 3 [[0, 0, 0], [0, 1, 0], [0, 0, 0]] ([[1, 1, 1], [1, 1, 1], [1, 1, 1]], (2, 2))
     ([[0, 0, 0, 0, 0], [0, 1, 0, 1, 0], [0, 0, 0, 0, 0], [0, 1, 0, 0, 0], [0, 0, 0, 0, 0]],
      [[0, 0, 0, 0, 0], [0, 1, 0, 1, 0], [0, 0, 0, 0, 0], [0, 1, 0, 0, 0], [0, 0, 0, 0, 0]])
   = ([[0, 0, 0, 0, 0], [0, 1, 0, 1, 0], [0, 0, 0, 0, 0], [0, 1, 0, 1, 0], [0, 0, 0, 0, 0]],
      [[0, 0, 0, 0, 0], [0, 1, 0, 1, 0], [0, 0, 0, 0, 0], [0, 1, 0, 1, 0], [0, 0, 0, 0, 0]])"
  by (simp add: blend_tile_def slice2_def zip_with2_def store_region_def Let_def)

lemma small_blend:
  "blend_padded small_state [[[1, 1, 1], [1, 1, 1], [1, 1, 1]], [[1, 1, 1], [1, 1, 1], [1, 1, 1]], [[1, 1, 1], [1, 1, 1], [1, 1, 1]], [[1, 1, 1], [1, 1, 1], [1, 1, 1]]]
   = Inr [[0, 0, 0, 0, 0], [0, 1, 0, 1, 0], [0, 0, 0, 0, 0], [0, 1, 0, 1, 0], [0, 0, 0, 0, 0]]"
  by (simp add: blend_padded_def small_fields window_3 accumulate_tiles_def full_5_5
      bl0 bl1 bl2 bl3 normalise_weights_def zip_with2_def map2d_def)

lemma small_blend_crop:
  "crop_padded small_state
     [[0, 0, 0, 0, 0], [0, 1, 0, 1, 0], [0, 0, 0, 0, 0], [0, 1, 0, 1, 0], [0, 0, 0, 0, 0 :: real]]
   = Inr [[1, 0], [0, 0]]"
  by (simp add: crop_padded_def small_state_def py_slice_def py_index_def)


subsection \<open>Constant images\<close>

text \<open>Claim C8 says that a constant image is reconstructed as that constant at every
  pixel. \<^verbatim>\<open>np.hanning(3)\<close> is \<open>[0, 1, 0]\<close>, so the window of a 3 by 3 tile weights its centre
  only. On the coordinator \<^verbatim>\<open>SegFlow(tile_size=3, stride=2)\<close> with a 2 by 2 image whose four
  overlapping tiles are constant 1, three of the four output pixels never receive
  weight and are 0.\<close>

theorem blend_constant_image_zero_weight:
  "weighting_window 3 = Inr [[0, 0, 0], [0, 1, 0], [0, 0, 0]]
   \<and> constant_tile 1 [[1, 1, 1], [1, 1, 1], [1, 1, 1]]
   \<and> combine_continuous_tiles small_state [[[1, 1, 1], [1, 1, 1], [1, 1, 1]], [[1, 1, 1], [1, 1, 1], [1, 1, 1]], [[1, 1, 1], [1, 1, 1], [1, 1, 1]], [[1, 1, 1], [1, 1, 1], [1, 1, 1]]]
     = Inr [[1, 0], [0, 0]]"
  by (simp add: combine_continuous_tiles_def small_blend small_blend_crop window_3
      constant_tile_def)

text \<open>Claim C8 as amended: for tiles cut from a constant image with value \<open>c\<close>, of the tile
  shape and inside the padded extent, and a tile size whose window exists, the blended
  raster before the crop has the padded shape and holds \<open>c\<close> at every pixel whose
  accumulated window weight is not zero and \<open>0\<close> at every pixel whose accumulated weight
  is zero. The arithmetic is that of the real numbers.\<close>

theorem blend_constant_image:
  assumes "image_padded self = Some (H, W)" and "positions self = Some ps" and "tiles \<noteq> []"
    and "tiles_fit (tile_size self) H W (zip tiles ps)"
    and "\<forall>tile \<in> set tiles. constant_tile c tile"
    and "weighting_window (tile_size self) = Inr window"
    and "i < H" and "j < W"
  shows "\<exists>out. blend_padded self tiles = Inr out \<and> rect H W out
           \<and> out ! i ! j
             = (if pixel_weight (tile_size self) window (zip tiles ps) i j = 0 then 0 else c)"
proof -
  let ?t = "tile_size self"
  let ?acc = "accumulate_tiles ?t window (H, W) (zip tiles ps)"
  let ?pw = "pixel_weight ?t window (zip tiles ps) i j"
  have win: "rect ?t ?t window" using assms(6) by (rule rect_weighting_window)
  have ct: "\<forall>tp \<in> set (zip tiles ps). constant_tile c (fst tp)"
    using assms(5) by (auto dest: set_zip_leftD)
  have z: "rect H W (full H W (0::real))" by (rule rect_full)
  from blend_fold_constant [OF assms(4) ct win z z assms(7,8)]
  have rf: "rect H W (fst ?acc)" and rs: "rect H W (snd ?acc)"
    and vf: "fst ?acc ! i ! j = c * ?pw" and vs: "snd ?acc ! i ! j = ?pw"
    using assms(7,8) by (simp_all add: accumulate_tiles_def full_nth)
  let ?den = "map2d (\<lambda>w. if w = 0 then 1 else w) (snd ?acc)"
  have rd: "rect H W ?den" using rs by (rule rect_map2d)
  have dv: "?den ! i ! j = (if ?pw = 0 then 1 else ?pw)"
    using rs assms(7,8) vs by (simp add: map2d_nth rect_def)
  have out: "blend_padded self tiles = Inr (zip_with2 (/) (fst ?acc) ?den)"
    using assms(1,2,3,6) by (simp add: blend_padded_def normalise_weights_def split_beta)
  have "zip_with2 (/) (fst ?acc) ?den ! i ! j = (if ?pw = 0 then 0 else c)"
    using zip_with2_nth [OF rf rd assms(7,8), of "(/)"] vf dv by simp
  moreover have "rect H W (zip_with2 (/) (fst ?acc) ?den)"
    using rf rd by (rule rect_zip_with2)
  ultimately show ?thesis using out by blast
qed

theorem blend_constant_image_witness:
  "\<exists>out. blend_padded small_state [[[7, 7, 7], [7, 7, 7], [7, 7, 7]], [[7, 7, 7], [7, 7, 7], [7, 7, 7]], [[7, 7, 7], [7, 7, 7], [7, 7, 7]], [[7, 7, 7], [7, 7, 7], [7, 7, 7]]] = Inr out
      \<and> out ! 1 ! 1 = 7 \<and> out ! 1 ! 2 = 0"
proof -
  let ?T = "[[[7, 7, 7], [7, 7, 7], [7, 7, 7]], [[7, 7, 7], [7, 7, 7], [7, 7, 7]], [[7, 7, 7], [7, 7, 7], [7, 7, 7]], [[7, 7, 7], [7, 7, 7], [7, 7, 7]] :: real raster]"
  let ?ps = "[(0 :: nat, 0 :: nat), (0, 2), (2, 0), (2, 2)]"
  have f: "tiles_fit (tile_size small_state) 5 5 (zip ?T ?ps)"
    by (simp add: small_fields tiles_fit_def rect_def)
  have c: "\<forall>tile \<in> set ?T. constant_tile 7 tile"
    by (simp add: constant_tile_def)
  have w: "weighting_window (tile_size small_state) = Inr [[0, 0, 0], [0, 1, 0], [0, 0, 0]]"
    by (simp add: small_fields window_3)
  have p: "pixel_weight (tile_size small_state) [[0, 0, 0], [0, 1, 0], [0, 0, 0]] (zip ?T ?ps) 1 1 = 1"
    "pixel_weight (tile_size small_state) [[0, 0, 0], [0, 1, 0], [0, 0, 0]] (zip ?T ?ps) 1 2 = 0"
    by (simp_all add: small_fields pixel_weight_def in_window_def)
  have n: "?T \<noteq> []" by simp
  from blend_constant_image [OF small_fields(2,1) n f c w, of 1 1]
    blend_constant_image [OF small_fields(2,1) n f c w, of 1 2] p
  show ?thesis by auto
qed

end
